theory Spec2Isabelle
  imports Complex_Main "HOL-Library.Word"
begin

section \<open>Data model\<close>

text \<open>
  The pipeline works on three things: rows of the metadata store (document versions and
  document pages, read and written through Prisma), objects of the object store (written by
  \<open>putFileServer\<close>), and the answers of external collaborators (HTTP fetches, the PDF
  library, the media prober and encoder).  The rows and objects form the \<open>world\<close> that
  every operation takes and returns; the answers of the collaborators are parameters of
  each operation (records named \<open>..._env\<close>).  An exception is a value \<open>Inl e\<close>.

  JavaScript numbers that hold page geometry or percentages are modelled as exact
  real numbers; \<open>Math.round\<close> rounds half up.
\<close>

type_synonym buffer = "8 word list"

datatype storage_type = S3_PATH | VERCEL_BLOB

datatype error =
    External string
  | RecordNotFound
  | Thrown string
  | ConversionFailed string string
  | DocumentConversionFailed error

record document_version =
  dv_id :: string
  dv_documentId :: string
  dv_file :: string
  dv_originalFile :: "string option"
  dv_type :: "string option"
  dv_storageType :: storage_type
  dv_numPages :: "int option"
  dv_hasPages :: bool
  dv_isPrimary :: bool
  dv_isVertical :: bool
  dv_versionNumber :: int
  dv_length :: "int option"
  dv_contentType :: "string option"
  dv_fileSize :: "int option"

record page_metadata =
  originalWidth :: real
  originalHeight :: real
  width :: real
  height :: real
  scaleFactor :: real

record document_page =
  dp_id :: string
  dp_versionId :: string
  dp_pageNumber :: int
  dp_file :: string
  dp_storageType :: storage_type
  dp_pageLinks :: "(string \<times> real list) list"
  dp_metadata :: page_metadata

record document =
  doc_id :: string
  doc_name :: string

record s3_object =
  obj_key :: string
  obj_body :: buffer
  obj_contentType :: string

record world =
  teams :: "string list"
  documents :: "document list"
  versions :: "document_version list"
  pages :: "document_page list"
  objects :: "s3_object list"

section \<open>Metadata store operations\<close>

text \<open>\<open>prisma.documentVersion.findUnique({where: {id}})\<close>.\<close>

definition findVersion :: "string \<Rightarrow> world \<Rightarrow> document_version option" where
  "findVersion vid w = find (\<lambda>v. dv_id v = vid) (versions w)"

text \<open>\<open>prisma.documentVersion.update({where: {id}, data})\<close>: throws when no row has the id.\<close>

definition updateVersion ::
  "string \<Rightarrow> (document_version \<Rightarrow> document_version) \<Rightarrow> world \<Rightarrow> error + world" where
  "updateVersion vid f w =
     (case findVersion vid w of
        None \<Rightarrow> Inl RecordNotFound
      | Some _ \<Rightarrow> Inr (w\<lparr>versions := map (\<lambda>v. if dv_id v = vid then f v else v) (versions w)\<rparr>))"

text \<open>\<open>prisma.documentVersion.updateMany({where, data})\<close>.\<close>

definition updateManyVersions ::
  "(document_version \<Rightarrow> bool) \<Rightarrow> (document_version \<Rightarrow> document_version) \<Rightarrow> world \<Rightarrow> world" where
  "updateManyVersions p f w = w\<lparr>versions := map (\<lambda>v. if p v then f v else v) (versions w)\<rparr>"

text \<open>\<open>prisma.documentPage.findUnique({where: {pageNumber_versionId: {pageNumber, versionId}}})\<close>.\<close>

definition findPage :: "int \<Rightarrow> string \<Rightarrow> world \<Rightarrow> document_page option" where
  "findPage pageNumber versionId w =
     find (\<lambda>p. dp_pageNumber p = pageNumber \<and> dp_versionId p = versionId) (pages w)"

section \<open>Storage gateway\<close>

text \<open>
  \<open>putFileServer\<close> (put-file-server.ts).  \<open>slugify\<close>, \<open>path.parse\<close> and \<open>newId\<close> are
  library functions outside the repository and are taken as parameters, as is the outcome
  of the S3 send.
\<close>

record s3_file =
  file_name :: string
  file_type :: string
  file_buffer :: buffer

record put_env =
  s3_send :: "error + unit"
  s3_newId :: string
  slugify :: "string \<Rightarrow> string"
  path_parse :: "string \<Rightarrow> string \<times> string"

definition putFileServer ::
  "put_env \<Rightarrow> s3_file \<Rightarrow> string \<Rightarrow> string option \<Rightarrow> world
     \<Rightarrow> (error + storage_type \<times> string) \<times> world" where
  "putFileServer env file teamId docId w =
     (let documentId = (case docId of Some d \<Rightarrow> d | None \<Rightarrow> s3_newId env);
          (name, ext) = path_parse env (file_name file);
          key = teamId @ ''/'' @ documentId @ ''/'' @ slugify env name @ ext
      in case s3_send env of
           Inl err \<Rightarrow> (Inl err, w)
         | Inr _ \<Rightarrow>
             (Inr (S3_PATH, key),
              w\<lparr>objects := objects w @
                   [\<lparr>obj_key = key, obj_body = file_buffer file, obj_contentType = file_type file\<rparr>]\<rparr>))"

section \<open>Small helpers of the language\<close>

text \<open>
  \<open>Math.round\<close>: to the nearest integer, halves towards plus infinity.  The numbers of the
  language are IEEE doubles; here they are exact reals.  An argument of \<open>Math.round\<close> that
  the code computes by a division or a multiplication carries the rounding error of
  that operation, and this definition carries none, so the two can differ by one when the
  exact value lies within that error of a half.
\<close>

definition Math_round :: "real \<Rightarrow> int" where
  "Math_round x = \<lfloor>x + 1 / 2\<rfloor>"

text \<open>
  A number inside a template string: its decimal digits, least significant first into an
  accumulator, with a minus sign in front of a negative one.
\<close>

function decimalDigits :: "nat \<Rightarrow> string \<Rightarrow> string" where
  "decimalDigits n acc =
     (let acc' = char_of (n mod 10 + 48) # acc
      in if n div 10 = 0 then acc' else decimalDigits (n div 10) acc')"
  by pat_completeness auto
termination
  by (relation "measure fst") auto

declare decimalDigits.simps [simp del]

definition numberToString :: "int \<Rightarrow> string" where
  "numberToString i =
     (if 0 \<le> i then decimalDigits (nat i) [] else CHR ''-'' # decimalDigits (nat (- i)) [])"

text \<open>
  \<open>url.match(/(doc_[^\/]+)\//)\<close>: the leftmost \<open>doc_\<close> that is followed by at least one
  character other than a slash and then by a slash; the match's first group.
\<close>

fun matchDocId :: "string \<Rightarrow> string option" where
  "matchDocId [] = None"
| "matchDocId (c # cs) =
     (let s = c # cs;
          rest = drop 4 s;
          seg = takeWhile (\<lambda>x. x \<noteq> CHR ''/'') rest;
          after = dropWhile (\<lambda>x. x \<noteq> CHR ''/'') rest
      in if take 4 s = ''doc_'' \<and> seg \<noteq> [] \<and> after \<noteq> [] then Some (''doc_'' @ seg)
         else matchDocId cs)"

section \<open>Rasterizer: one page (pdf-utils.ts)\<close>

record pdf_page =
  pg_bounds :: "real \<times> real \<times> real \<times> real"
  pg_links :: "(string \<times> real list) list"

text \<open>
  What the collaborators answer during one call of \<open>convertPdfPageToImage\<close>:
  \<open>pe_load\<close> is fetching the PDF, opening it and loading the page; \<open>pe_render\<close> is
  reading the links, rendering the pixmap and encoding it as PNG and as JPEG (quality 80);
  \<open>pe_newPageId\<close> is the id the metadata store gives a created page row.
\<close>

record page_env =
  pe_load :: "error + pdf_page"
  pe_render :: "error + buffer \<times> buffer"
  pe_put :: put_env
  pe_newPageId :: string

text \<open>Lines 110 to 125: generate both PNG and JPEG and choose the smaller one.\<close>

definition chooseEncoding :: "buffer \<Rightarrow> buffer \<Rightarrow> buffer \<times> string" where
  "chooseEncoding pngBuffer jpegBuffer =
     (let pngSize = length pngBuffer;
          jpegSize = length jpegBuffer
      in if pngSize < jpegSize then (pngBuffer, ''png'') else (jpegBuffer, ''jpeg''))"

text \<open>Lines 157 to 185: look the page row up, create it only when it does not exist.\<close>

definition persistPage ::
  "string \<Rightarrow> string \<Rightarrow> int \<Rightarrow> string \<Rightarrow> storage_type \<Rightarrow> (string \<times> real list) list
     \<Rightarrow> page_metadata \<Rightarrow> world \<Rightarrow> (error + string) \<times> world" where
  "persistPage newPageId documentVersionId pageNumber data type embeddedLinks metadata w =
     (case findPage pageNumber documentVersionId w of
        None \<Rightarrow>
          (let documentPage =
                 \<lparr>dp_id = newPageId, dp_versionId = documentVersionId,
                  dp_pageNumber = pageNumber, dp_file = data, dp_storageType = type,
                  dp_pageLinks = embeddedLinks, dp_metadata = metadata\<rparr>
           in (Inr (dp_id documentPage), w\<lparr>pages := pages w @ [documentPage]\<rparr>))
      | Some existingPage \<Rightarrow> (Inr (dp_id existingPage), w))"

text \<open>Lines 102 to 155: render, encode, choose, upload.\<close>

definition renderAndUpload ::
  "page_env \<Rightarrow> int \<Rightarrow> string \<Rightarrow> string \<Rightarrow> world
     \<Rightarrow> (error + storage_type \<times> string) \<times> world" where
  "renderAndUpload pe pageNumber url teamId w =
     (case pe_render pe of
        Inl err \<Rightarrow> (Inl err, w)
      | Inr (pngBuffer, jpegBuffer) \<Rightarrow>
          (let (chosenBuffer, chosenFormat) = chooseEncoding pngBuffer jpegBuffer;
               docId = matchDocId url;
               (r, w') =
                 putFileServer (pe_put pe)
                   \<lparr>file_name = ''page-'' @ numberToString pageNumber @ ''.'' @ chosenFormat,
                    file_type = ''image/'' @ chosenFormat,
                    file_buffer = chosenBuffer\<rparr>
                   teamId docId w
           in case r of
                Inl err \<Rightarrow> (Inl err, w')
              | Inr (type, data) \<Rightarrow>
                  if data = [] then
                    (Inl (Thrown (''Failed to upload document page '' @ numberToString pageNumber)), w')
                  else (Inr (type, data), w')))"

definition convertPdfPageToImage ::
  "page_env \<Rightarrow> string \<Rightarrow> int \<Rightarrow> string \<Rightarrow> string \<Rightarrow> world \<Rightarrow> (error + string) \<times> world" where
  "convertPdfPageToImage pe documentVersionId pageNumber url teamId w =
     (case pe_load pe of
        Inl err \<Rightarrow> (Inl err, w)
      | Inr page \<Rightarrow>
          (let (ulx, uly, lrx, lry) = pg_bounds page;
               widthInPoints = \<bar>lrx - ulx\<bar>;
               heightInPoints = \<bar>lry - uly\<bar>
           in case (if pageNumber = 1
                    then updateVersion documentVersionId
                           (\<lambda>v. v\<lparr>dv_isVertical := heightInPoints > widthInPoints\<rparr>) w
                    else Inr w) of
                Inl err \<Rightarrow> (Inl err, w)
              | Inr w1 \<Rightarrow>
                  (let scaleFactor = (if widthInPoints \<ge> 1600 then 2 else 3);
                       embeddedLinks = pg_links page;
                       metadata =
                         \<lparr>originalWidth = widthInPoints, originalHeight = heightInPoints,
                          width = widthInPoints * scaleFactor,
                          height = heightInPoints * scaleFactor,
                          scaleFactor = scaleFactor\<rparr>
                   in case renderAndUpload pe pageNumber url teamId w1 of
                        (Inl err, w2) \<Rightarrow> (Inl err, w2)
                      | (Inr (type, data), w2) \<Rightarrow>
                          persistPage (pe_newPageId pe) documentVersionId pageNumber data type
                            embeddedLinks metadata w2)))"

section \<open>Rasterizer: the whole document (pdf-to-image.ts)\<close>

text \<open>\<open>getFile\<close> (get-file.ts) asks for a presigned URL of the stored key, whatever the storage type.\<close>

definition getFile :: "(string \<Rightarrow> error + string) \<Rightarrow> storage_type \<Rightarrow> string \<Rightarrow> error + string" where
  "getFile presign type data = presign data"

record payload =
  p_documentId :: string
  p_documentVersionId :: string
  p_teamId :: string
  p_versionNumber :: "int option"

text \<open>
  The collaborators of one run: the presigner, \<open>getPdfPageCount\<close>, the collaborators of
  each page's conversion (by page number), and the revalidation fetch.
\<close>

record raster_env =
  re_presign :: "string \<Rightarrow> error + string"
  re_pageCount :: "error + int"
  re_page :: "int \<Rightarrow> page_env"
  re_revalidate :: "error + unit"

record raster_success =
  rs_success :: bool
  rs_message :: string
  rs_totalPages :: int

text \<open>
  A run's observable behaviour: what it returns (\<open>Inr None\<close> is the bare \<open>return\<close>), the
  calls of \<open>updateProgress\<close> in order, the calls of \<open>getPdfPageCount\<close> and
  \<open>convertPdfPageToImage\<close> in order, and the world it leaves.
\<close>

datatype raster_call = GetPdfPageCount | ConvertPage int

record raster_run =
  rr_result :: "error + raster_success option"
  rr_progress :: "(int \<times> string) list"
  rr_calls :: "raster_call list"
  rr_world :: world

text \<open>Lines 69 to 92: which page count the run uses.\<close>

datatype page_count = UseCount int | NoPages | ProbeThrew

definition probePageCount :: "raster_env \<Rightarrow> page_count \<times> raster_call list" where
  "probePageCount env =
     (case re_pageCount env of
        Inl err \<Rightarrow> (ProbeThrew, [GetPdfPageCount])
      | Inr numPagesResult \<Rightarrow>
          if numPagesResult < 1 then (NoPages, [GetPdfPageCount])
          else (UseCount numPagesResult, [GetPdfPageCount]))"

definition determinePageCount :: "raster_env \<Rightarrow> int option \<Rightarrow> page_count \<times> raster_call list" where
  "determinePageCount env numPages =
     (case numPages of
        None \<Rightarrow> probePageCount env
      | Some n \<Rightarrow> if n = 0 \<or> n = 1 then probePageCount env else (UseCount n, []))"

text \<open>
  Lines 97 to 136: the loop over the pages.  The percentage reported for a page is
  \<open>Math.round((currentPage / numPages) * 100)\<close>, computed here on exact reals and in the code
  on doubles.  The two agree whenever the exact value is not a half-integer up to the
  error of the double operations, as for every page of a document of 5 pages; they
  differ, for example, at page 23 of 40, where the exact value is 57.5 (rounded to 58) and
  the double product is 57.49999999999999 (rounded to 57).
\<close>

record loop_state =
  ls_currentPage :: int
  ls_conversionWithoutError :: bool
  ls_progress :: "(int \<times> string) list"
  ls_calls :: "raster_call list"
  ls_world :: world

function pageLoop ::
  "raster_env \<Rightarrow> string \<Rightarrow> string \<Rightarrow> string \<Rightarrow> int \<Rightarrow> int \<Rightarrow> loop_state \<Rightarrow> loop_state" where
  "pageLoop env documentVersionId signedUrl teamId numPages i s =
     (if i < numPages then
        (if \<not> ls_conversionWithoutError s then s
         else
           (let currentPage = i + 1;
                r = convertPdfPageToImage (re_page env currentPage) documentVersionId
                      currentPage signedUrl teamId (ls_world s)
            in pageLoop env documentVersionId signedUrl teamId numPages (i + 1)
                 \<lparr>ls_currentPage = currentPage,
                  ls_conversionWithoutError = (case fst r of Inl _ \<Rightarrow> False | Inr _ \<Rightarrow> True),
                  ls_progress = ls_progress s @
                    [(Math_round (of_int currentPage / of_int numPages * 100),
                      numberToString currentPage @ '' / '' @ numberToString numPages @
                        '' pages processed'')],
                  ls_calls = ls_calls s @ [ConvertPage currentPage],
                  ls_world = snd r\<rparr>))
      else s)"
  by pat_completeness auto
termination
  by (relation "measure (\<lambda>(env, vid, url, team, numPages, i, s). nat (numPages - i))") auto

declare pageLoop.simps [simp del]

text \<open>Lines 162 to 175: with a version number, the other versions stop being primary.\<close>

definition demoteOtherVersions :: "payload \<Rightarrow> world \<Rightarrow> world" where
  "demoteOtherVersions payload w =
     (case p_versionNumber payload of
        Some versionNumber \<Rightarrow>
          if versionNumber \<noteq> 0 then
            updateManyVersions
              (\<lambda>v. dv_documentId v = p_documentId payload \<and> dv_versionNumber v \<noteq> versionNumber)
              (\<lambda>v. v\<lparr>dv_isPrimary := False\<rparr>) w
          else w
      | None \<Rightarrow> w)"

text \<open>Lines 147 to 193: after all pages are uploaded.\<close>

definition enablePages ::
  "raster_env \<Rightarrow> payload \<Rightarrow> int \<Rightarrow> (int \<times> string) list \<Rightarrow> raster_call list \<Rightarrow> world \<Rightarrow> raster_run" where
  "enablePages env payload numPages prog calls w =
     (case updateVersion (p_documentVersionId payload)
             (\<lambda>v. v\<lparr>dv_numPages := Some numPages, dv_hasPages := True, dv_isPrimary := True\<rparr>) w of
        Inl err \<Rightarrow> \<lparr>rr_result = Inl err, rr_progress = prog, rr_calls = calls, rr_world = w\<rparr>
      | Inr w1 \<Rightarrow>
          (let prog1 = prog @ [(90, ''Enabling pages...'')];
               w2 = demoteOtherVersions payload w1;
               prog2 = prog1 @ [(95, ''Revalidating link...'')]
           in case re_revalidate env of
                Inl err \<Rightarrow>
                  \<lparr>rr_result = Inl err, rr_progress = prog2, rr_calls = calls, rr_world = w2\<rparr>
              | Inr _ \<Rightarrow>
                  \<lparr>rr_result =
                     Inr (Some \<lparr>rs_success = True,
                                rs_message = ''Successfully converted PDF to images'',
                                rs_totalPages = numPages\<rparr>),
                   rr_progress = prog2 @ [(100, ''Processing complete'')],
                   rr_calls = calls, rr_world = w2\<rparr>))"

text \<open>Lines 94 to 145, then the rest: convert the pages, stop at the first failure.\<close>

definition convertPages ::
  "raster_env \<Rightarrow> payload \<Rightarrow> string \<Rightarrow> int \<Rightarrow> (int \<times> string) list \<Rightarrow> raster_call list
     \<Rightarrow> world \<Rightarrow> raster_run" where
  "convertPages env payload signedUrl numPages prog calls w =
     (let s = pageLoop env (p_documentVersionId payload) signedUrl (p_teamId payload) numPages 0
                \<lparr>ls_currentPage = 0, ls_conversionWithoutError = True,
                 ls_progress = prog @ [(20, ''Converting document...'')],
                 ls_calls = calls, ls_world = w\<rparr>
      in if \<not> ls_conversionWithoutError s then
           \<lparr>rr_result = Inr None,
            rr_progress = ls_progress s @
              [(Math_round (of_int (ls_currentPage s) / of_int numPages * 100),
                ''Error processing page '' @ numberToString (ls_currentPage s) @ '' of '' @
                  numberToString numPages)],
            rr_calls = ls_calls s, rr_world = ls_world s\<rparr>
         else enablePages env payload numPages (ls_progress s) (ls_calls s) (ls_world s))"

definition convertPdfToImage :: "raster_env \<Rightarrow> payload \<Rightarrow> world \<Rightarrow> raster_run" where
  "convertPdfToImage env payload w =
     (let prog0 = [(0, ''Initializing...'')]
      in case findVersion (p_documentVersionId payload) w of
           None \<Rightarrow>
             \<lparr>rr_result = Inr None, rr_progress = prog0 @ [(0, ''Document not found'')],
              rr_calls = [], rr_world = w\<rparr>
         | Some documentVersion \<Rightarrow>
             (let prog1 = prog0 @ [(10, ''Retrieving file...'')]
              in case getFile (re_presign env) (dv_storageType documentVersion)
                        (dv_file documentVersion) of
                   Inl err \<Rightarrow>
                     \<lparr>rr_result = Inl err, rr_progress = prog1, rr_calls = [], rr_world = w\<rparr>
                 | Inr signedUrl \<Rightarrow>
                     if signedUrl = [] then
                       \<lparr>rr_result = Inr None,
                        rr_progress = prog1 @ [(0, ''Failed to retrieve document'')],
                        rr_calls = [], rr_world = w\<rparr>
                     else
                       (case determinePageCount env (dv_numPages documentVersion) of
                          (ProbeThrew, calls) \<Rightarrow>
                            \<lparr>rr_result = Inl (Thrown ''Failed to get number of pages''),
                             rr_progress = prog1, rr_calls = calls, rr_world = w\<rparr>
                        | (NoPages, calls) \<Rightarrow>
                            \<lparr>rr_result = Inr None,
                             rr_progress = prog1 @ [(0, ''Failed to get number of pages'')],
                             rr_calls = calls, rr_world = w\<rparr>
                        | (UseCount numPages, calls) \<Rightarrow>
                            convertPages env payload signedUrl numPages prog1 calls w)))"

section \<open>Conversion request with retries (convert-cad-to-pdf.ts and the office converter)\<close>

text \<open>
  The retry loop and the check after it are the same text in \<open>convertCadToPdf\<close>
  (lines 122 to 180) and in the office converter that posts to the conversion service
  (lines 104 to 161), so one definition models both.  \<open>response.ok\<close> is the library's
  test for a status from 200 to 299.  \<open>rt_attempts\<close> counts the calls of \<open>fetch\<close> and
  \<open>rt_delays\<close> lists the waits of \<open>setTimeout\<close>, in order; the answer of the service to
  the \<open>k\<close>-th call (from 0) is \<open>fetch k\<close>.
\<close>

record http_response =
  status :: int
  statusText :: string
  json_body :: "error + string option"
  body_bytes :: buffer

datatype fetch_outcome = FetchThrew error | Responded http_response

definition response_ok :: "http_response \<Rightarrow> bool" where
  "response_ok r = (200 \<le> status r \<and> status r \<le> 299)"

definition maxRetries :: nat where
  "maxRetries = 3"

definition backoffDelay :: "nat \<Rightarrow> nat" where
  "backoffDelay retryCount = min (1000 * 2 ^ retryCount) 30000"

record retry_state =
  rt_retryCount :: nat
  rt_conversionResponse :: "http_response option"
  rt_attempts :: nat
  rt_delays :: "nat list"

function retryLoop :: "(nat \<Rightarrow> fetch_outcome) \<Rightarrow> retry_state \<Rightarrow> error option \<times> retry_state" where
  "retryLoop fetch s =
     (if rt_retryCount s < maxRetries then
        (case fetch (rt_attempts s) of
           Responded r \<Rightarrow>
             (let s1 = s\<lparr>rt_conversionResponse := Some r, rt_attempts := rt_attempts s + 1\<rparr>
              in if response_ok r then (None, s1)
                 else if status r \<ge> 500 \<and> status r < 600 then
                   (let retryCount = rt_retryCount s + 1;
                        delay = backoffDelay retryCount
                    in retryLoop fetch
                         (s1\<lparr>rt_retryCount := retryCount, rt_delays := rt_delays s @ [delay]\<rparr>))
                 else (None, s1))
         | FetchThrew err \<Rightarrow>
             (let retryCount = rt_retryCount s + 1;
                  s1 = s\<lparr>rt_retryCount := retryCount, rt_attempts := rt_attempts s + 1\<rparr>
              in if retryCount \<ge> maxRetries then (Some err, s1)
                 else
                   (let delay = backoffDelay retryCount
                    in retryLoop fetch (s1\<lparr>rt_delays := rt_delays s @ [delay]\<rparr>))))
      else (None, s))"
  by pat_completeness auto
termination
  by (relation "measure (\<lambda>(fetch, s). maxRetries - rt_retryCount s)") (auto simp: maxRetries_def)

declare retryLoop.simps [simp del]

text \<open>Lines 122 to 124: no response yet, no retry yet.\<close>

definition initialRetryState :: retry_state where
  "initialRetryState =
     \<lparr>rt_retryCount = 0, rt_conversionResponse = None, rt_attempts = 0, rt_delays = []\<rparr>"

definition conversionFailure :: "string option \<Rightarrow> int option \<Rightarrow> error" where
  "conversionFailure message st =
     ConversionFailed
       (case message of None \<Rightarrow> ''Unknown error''
        | Some m \<Rightarrow> if m = [] then ''Unknown error'' else m)
       (case st of None \<Rightarrow> ''unknown status''
        | Some n \<Rightarrow> if n = 0 then ''unknown status'' else numberToString n)"

text \<open>
  The request with its retries and the check that follows: the response to go on with, or
  the error thrown; the calls of \<open>updateProgress\<close> made on the way; the loop's last state.
\<close>

definition submitConversion ::
  "(nat \<Rightarrow> fetch_outcome) \<Rightarrow> (error + http_response) \<times> (int \<times> string) list \<times> retry_state" where
  "submitConversion fetch =
     (case retryLoop fetch initialRetryState of
        (Some err, s) \<Rightarrow> (Inl err, [], s)
      | (None, s) \<Rightarrow>
          (case rt_conversionResponse s of
             None \<Rightarrow>
               (Inl (conversionFailure (Some ''Network error'') None),
                [(0, ''Conversion failed'')], s)
           | Some r \<Rightarrow>
               if response_ok r then (Inr r, [], s)
               else
                 (case json_body r of
                    Inl err \<Rightarrow> (Inl err, [], s)
                  | Inr message \<Rightarrow>
                      (Inl (conversionFailure message (Some (status r))),
                       [(0, ''Conversion failed'')], s))))"

section \<open>Office and CAD converters\<close>

record stage_success =
  ss_success :: bool
  ss_message :: string

record convert_env =
  ce_presign :: "string \<Rightarrow> error + string"
  ce_fetch :: "nat \<Rightarrow> fetch_outcome"
  ce_put :: put_env
  ce_raster :: raster_env

text \<open>
  A conversion's observable behaviour: what it returns, its own calls of \<open>updateProgress\<close>,
  the retry loop's last state when the loop ran, the rasterization it started, if any, and
  the world it leaves.
\<close>

record convert_run =
  cr_result :: "error + stage_success option"
  cr_progress :: "(int \<times> string) list"
  cr_retry :: "retry_state option"
  cr_raster :: "raster_run option"
  cr_world :: world

definition falsy :: "string option \<Rightarrow> bool" where
  "falsy x = (case x of None \<Rightarrow> True | Some s \<Rightarrow> s = [])"

text \<open>
  \<open>prisma.document.findUnique\<close> selecting the name and the versions with the given id:
  the document's name and the first such version.
\<close>

definition findDocumentVersion ::
  "string \<Rightarrow> string \<Rightarrow> world \<Rightarrow> (string \<times> document_version) option" where
  "findDocumentVersion documentId documentVersionId w =
     (case find (\<lambda>d. doc_id d = documentId) (documents w) of
        None \<Rightarrow> None
      | Some d \<Rightarrow>
          (case filter (\<lambda>v. dv_documentId v = documentId \<and> dv_id v = documentVersionId)
                  (versions w) of
             [] \<Rightarrow> None
           | v # _ \<Rightarrow>
               if falsy (dv_originalFile v) \<or> falsy (dv_contentType v) then None
               else Some (doc_name d, v)))"

text \<open>
  Saving the converted PDF, pointing the version at it and starting the rasterization:
  lines 184 to 255 of convert-cad-to-pdf.ts, and lines 163 to 239 of the office converter,
  which differ in what they report: \<open>saving\<close> is the report made before saving and
  \<open>previewPct\<close> the percentage reported before the page previews.  The rasterization
  is started without a version number, and what it throws is caught and dropped.
\<close>

definition saveAndRasterize ::
  "convert_env \<Rightarrow> payload \<Rightarrow> string \<Rightarrow> string \<Rightarrow> buffer \<Rightarrow> (int \<times> string) \<Rightarrow> int
     \<Rightarrow> string \<Rightarrow> (int \<times> string) list \<Rightarrow> retry_state option \<Rightarrow> world \<Rightarrow> convert_run" where
  "saveAndRasterize env payload pdfName originalFile conversionBuffer saving previewPct
      successMessage prog retry w =
     (let docId = matchDocId originalFile;
          prog1 = prog @ [saving];
          (r, w1) = putFileServer (ce_put env)
                      \<lparr>file_name = pdfName, file_type = ''application/pdf'',
                       file_buffer = conversionBuffer\<rparr>
                      (p_teamId payload) docId w
      in case r of
           Inl err \<Rightarrow>
             \<lparr>cr_result = Inl err, cr_progress = prog1, cr_retry = retry, cr_raster = None,
              cr_world = w1\<rparr>
         | Inr (storageType, data) \<Rightarrow>
             if data = [] then
               \<lparr>cr_result = Inr None,
                cr_progress = prog1 @ [(0, ''Failed to save converted file'')],
                cr_retry = retry, cr_raster = None, cr_world = w1\<rparr>
             else
               (case updateVersion (p_documentVersionId payload)
                       (\<lambda>v. v\<lparr>dv_file := data, dv_type := Some ''pdf'',
                              dv_storageType := storageType\<rparr>) w1 of
                  Inl err \<Rightarrow>
                    \<lparr>cr_result = Inl err, cr_progress = prog1, cr_retry = retry,
                     cr_raster = None, cr_world = w1\<rparr>
                | Inr w2 \<Rightarrow>
                    (let prog2 = prog1 @ [(previewPct, ''Generating page previews...'')];
                         run = convertPdfToImage (ce_raster env)
                                 \<lparr>p_documentId = p_documentId payload,
                                  p_documentVersionId = p_documentVersionId payload,
                                  p_teamId = p_teamId payload, p_versionNumber = None\<rparr> w2
                     in \<lparr>cr_result =
                           Inr (Some \<lparr>ss_success = True, ss_message = successMessage\<rparr>),
                         cr_progress = prog2 @ [(100, ''Conversion complete'')],
                         cr_retry = retry, cr_raster = Some run,
                         cr_world = rr_world run\<rparr>)))"

text \<open>
  The two converters that post to a conversion service.  \<open>afterLoop\<close> is what the
  converter reports right after a successful request (the CAD converter reports 40,
  the office converter nothing).
\<close>

definition convertViaService ::
  "convert_env \<Rightarrow> payload \<Rightarrow> (int \<times> string) list \<Rightarrow> (int \<times> string) \<Rightarrow> int \<Rightarrow> string
     \<Rightarrow> world \<Rightarrow> convert_run" where
  "convertViaService env payload afterLoop saving previewPct successMessage w =
     (let prog0 = [(0, ''Initializing...'')]
      in if p_teamId payload \<notin> set (teams w) then
           \<lparr>cr_result = Inr None, cr_progress = prog0 @ [(0, ''Team not found'')],
            cr_retry = None, cr_raster = None, cr_world = w\<rparr>
         else
           (case findDocumentVersion (p_documentId payload) (p_documentVersionId payload) w of
              None \<Rightarrow>
                \<lparr>cr_result = Inr None, cr_progress = prog0 @ [(0, ''Document not found'')],
                 cr_retry = None, cr_raster = None, cr_world = w\<rparr>
            | Some (name, version) \<Rightarrow>
                (let prog1 = prog0 @ [(10, ''Retrieving file...'')];
                     originalFile = (case dv_originalFile version of Some f \<Rightarrow> f | None \<Rightarrow> [])
                 in case getFile (ce_presign env) (dv_storageType version) originalFile of
                      Inl err \<Rightarrow>
                        \<lparr>cr_result = Inl err, cr_progress = prog1, cr_retry = None,
                         cr_raster = None, cr_world = w\<rparr>
                    | Inr fileUrl \<Rightarrow>
                        (let prog2 = prog1 @ [(20, ''Converting document...'')]
                         in case submitConversion (ce_fetch env) of
                              (Inl err, reported, s) \<Rightarrow>
                                \<lparr>cr_result = Inl err, cr_progress = prog2 @ reported,
                                 cr_retry = Some s, cr_raster = None, cr_world = w\<rparr>
                            | (Inr conversionResponse, reported, s) \<Rightarrow>
                                saveAndRasterize env payload (name @ ''.pdf'') originalFile
                                  (body_bytes conversionResponse) saving previewPct
                                  successMessage (prog2 @ reported @ afterLoop) (Some s) w))))"

definition convertCadToPdf :: "convert_env \<Rightarrow> payload \<Rightarrow> world \<Rightarrow> convert_run" where
  "convertCadToPdf env payload w =
     convertViaService env payload [(40, ''Processing converted document...'')]
       (60, ''Saving document...'') 80 ''Successfully converted CAD file to PDF'' w"

definition convertOfficeToPdf :: "convert_env \<Rightarrow> payload \<Rightarrow> world \<Rightarrow> convert_run" where
  "convertOfficeToPdf env payload w =
     convertViaService env payload []
       (30, ''Saving converted file...'') 40 ''Successfully converted Office document to PDF'' w"

section \<open>Office converter with the local renderer (convert-office-to-pdf.ts)\<close>

text \<open>\<open>name.replace(/\.[^.]+$/, "")\<close>: drop a last extension of at least one character.\<close>

definition stripExtension :: "string \<Rightarrow> string" where
  "stripExtension name =
     (let r = rev name;
          ext = takeWhile (\<lambda>c. c \<noteq> CHR ''.'') r;
          rest = dropWhile (\<lambda>c. c \<noteq> CHR ''.'') r
      in if ext \<noteq> [] \<and> rest \<noteq> [] then rev (tl rest) else name)"

record libre_env =
  le_presign :: "string \<Rightarrow> error + string"
  le_mkdir :: "error + unit"
  le_download :: fetch_outcome
  le_writeFile :: "error + unit"
  le_convert :: "error + buffer"
  le_put :: put_env
  le_raster :: raster_env

text \<open>Lines 114 to 196: the inner \<open>try\<close>, whose \<open>catch\<close> reports 0 and wraps the error.\<close>

definition libreConvertAndSave ::
  "libre_env \<Rightarrow> payload \<Rightarrow> string \<Rightarrow> string \<Rightarrow> (int \<times> string) list \<Rightarrow> world \<Rightarrow> convert_run" where
  "libreConvertAndSave env payload name originalFile prog w =
     (let caught = (\<lambda>err reported w'.
            \<lparr>cr_result = Inl (DocumentConversionFailed err),
             cr_progress = reported @ [(0, ''Conversion failed'')],
             cr_retry = None, cr_raster = None, cr_world = w'\<rparr>)
      in case le_convert env of
           Inl err \<Rightarrow> caught err prog w
         | Inr pdfBuffer \<Rightarrow>
             (let prog1 = prog @ [(70, ''Conversion complete, saving result...'')];
                  docId = matchDocId originalFile;
                  (r, w1) = putFileServer (le_put env)
                              \<lparr>file_name = stripExtension name @ ''.pdf'',
                               file_type = ''application/pdf'', file_buffer = pdfBuffer\<rparr>
                              (p_teamId payload) docId w
              in case r of
                   Inl err \<Rightarrow> caught err prog1 w1
                 | Inr (storageType, data) \<Rightarrow>
                     if data = [] then
                       \<lparr>cr_result = Inr None,
                        cr_progress = prog1 @ [(0, ''Failed to save converted file'')],
                        cr_retry = None, cr_raster = None, cr_world = w1\<rparr>
                     else
                       (case updateVersion (p_documentVersionId payload)
                               (\<lambda>v. v\<lparr>dv_file := data, dv_type := Some ''pdf'',
                                      dv_storageType := storageType\<rparr>) w1 of
                          Inl err \<Rightarrow> caught err prog1 w1
                        | Inr w2 \<Rightarrow>
                            (let prog2 = prog1 @ [(80, ''Generating page previews...'')];
                                 run = convertPdfToImage (le_raster env)
                                         \<lparr>p_documentId = p_documentId payload,
                                          p_documentVersionId = p_documentVersionId payload,
                                          p_teamId = p_teamId payload,
                                          p_versionNumber = None\<rparr> w2
                             in \<lparr>cr_result =
                                   Inr (Some \<lparr>ss_success = True,
                                              ss_message =
                                                ''Successfully converted Office document to PDF''\<rparr>),
                                 cr_progress = prog2 @ [(100, ''Conversion complete'')],
                                 cr_retry = None, cr_raster = Some run,
                                 cr_world = rr_world run\<rparr>))))"

definition convertOfficeToPdfLocal :: "libre_env \<Rightarrow> payload \<Rightarrow> world \<Rightarrow> convert_run" where
  "convertOfficeToPdfLocal env payload w =
     (let prog0 = [(0, ''Initializing...'')];
          thrown = (\<lambda>err reported.
            \<lparr>cr_result = Inl err, cr_progress = reported, cr_retry = None, cr_raster = None,
             cr_world = w\<rparr>)
      in if p_teamId payload \<notin> set (teams w) then
           \<lparr>cr_result = Inr None, cr_progress = prog0 @ [(0, ''Team not found'')],
            cr_retry = None, cr_raster = None, cr_world = w\<rparr>
         else
           (case findDocumentVersion (p_documentId payload) (p_documentVersionId payload) w of
              None \<Rightarrow>
                \<lparr>cr_result = Inr None, cr_progress = prog0 @ [(0, ''Document not found'')],
                 cr_retry = None, cr_raster = None, cr_world = w\<rparr>
            | Some (name, version) \<Rightarrow>
                (let prog1 = prog0 @ [(10, ''Retrieving file...'')];
                     originalFile = (case dv_originalFile version of Some f \<Rightarrow> f | None \<Rightarrow> [])
                 in case getFile (le_presign env) (dv_storageType version) originalFile of
                      Inl err \<Rightarrow> thrown err prog1
                    | Inr fileUrl \<Rightarrow>
                        (case le_mkdir env of
                           Inl err \<Rightarrow> thrown err prog1
                         | Inr _ \<Rightarrow>
                             (let prog2 = prog1 @ [(20, ''Downloading file...'')]
                              in case le_download env of
                                   FetchThrew err \<Rightarrow> thrown err prog2
                                 | Responded response \<Rightarrow>
                                     if \<not> response_ok response then
                                       thrown (Thrown (''Failed to download file: '' @
                                                 statusText response)) prog2
                                     else
                                       (case le_writeFile env of
                                          Inl err \<Rightarrow> thrown err prog2
                                        | Inr _ \<Rightarrow>
                                            libreConvertAndSave env payload name originalFile
                                              (prog2 @ [(30, ''Converting document...'')]) w))))))"

section \<open>Video optimizer (optimize-video.ts)\<close>

record video_payload =
  vp_videoUrl :: string
  vp_teamId :: string
  vp_docId :: string
  vp_documentVersionId :: string
  vp_fileSize :: int

text \<open>
  What the prober reports.  \<open>st_frame_rate\<close> is the pair of numbers that splitting the
  stream's frame rate at the slash yields, when the stream has a frame rate.
\<close>

record probe_stream =
  st_codec_type :: string
  st_width :: "int option"
  st_height :: "int option"
  st_frame_rate :: "(real \<times> real) option"

record probe_data =
  pr_streams :: "probe_stream list"
  pr_duration :: "real option"

record video_metadata =
  vm_width :: int
  vm_height :: int
  vm_fps :: real
  vm_duration :: int

text \<open>
  The collaborators of one run.  \<open>ve_fetch\<close> tells whether the response has a body;
  \<open>ve_ffmpeg_progress\<close> lists the \<open>percent\<close> of the encoder's progress events, in order,
  and \<open>ve_ffmpeg_end\<close> is how the encoder ends; \<open>ve_upload\<close> is the \<open>data\<close> that
  \<open>streamFileServer\<close> (outside the repository's sources here) returns.
\<close>

record video_env =
  ve_presign :: "string \<Rightarrow> error + string"
  ve_mkdir :: "error + unit"
  ve_fetch :: "error + bool"
  ve_download :: "error + unit"
  ve_probe :: "error + probe_data"
  ve_rm :: "error + unit"
  ve_ffmpeg_progress :: "real option list"
  ve_ffmpeg_end :: "error + unit"
  ve_upload :: "error + string option"

record video_run =
  vr_result :: "error + stage_success"
  vr_progress :: "(int \<times> string) list"
  vr_encoded :: bool
  vr_world :: world

text \<open>Lines 68 to 101: the metadata taken from the probe.\<close>

definition probeMetadata :: "error + probe_data \<Rightarrow> error + video_metadata" where
  "probeMetadata probe =
     (case probe of
        Inl err \<Rightarrow> Inl err
      | Inr metadata \<Rightarrow>
          (case find (\<lambda>s. st_codec_type s = ''video'') (pr_streams metadata) of
             None \<Rightarrow> Inl (Thrown ''No video stream found'')
           | Some videoStream \<Rightarrow>
               (let (num, den) = (case st_frame_rate videoStream of Some nd \<Rightarrow> nd | None \<Rightarrow> (0, 1));
                    fps = num / (if den = 0 then 1 else den)
                in Inr \<lparr>vm_width = (case st_width videoStream of
                                       Some x \<Rightarrow> if x = 0 then 1920 else x | None \<Rightarrow> 1920),
                        vm_height = (case st_height videoStream of
                                       Some x \<Rightarrow> if x = 0 then 1080 else x | None \<Rightarrow> 1080),
                        vm_fps = fps,
                        vm_duration =
                          Math_round (case pr_duration metadata of Some d \<Rightarrow> d | None \<Rightarrow> 0)\<rparr>)))"

text \<open>
  Lines 167 to 176: what the encoder's progress events make the optimizer report.  The
  reported value is \<open>Math.round(40 + progress.percent * 0.4)\<close>, computed here on exact
  reals (with 0.4 as four tenths) and in the code on doubles: at the percentage
  1.2499999999999998 the exact sum is below 40.5 (rounded to 40) and the double sum is
  40.5 (rounded to 41).  The order of the reported values and their range from 40 to 80
  are the same in both.
\<close>

definition encoderProgress :: "real option list \<Rightarrow> (int \<times> string) list" where
  "encoderProgress events =
     concat (map (\<lambda>e. case e of
                         None \<Rightarrow> []
                       | Some percent \<Rightarrow>
                           if percent = 0 then []
                           else [(Math_round (40 + percent * (4 / 10)),
                                  ''Processing: '' @ numberToString (Math_round percent) @ ''%'')])
                 events)"

text \<open>Lines 127 to 255: re-encode, upload, point the version at the optimized file.\<close>

definition encodeAndReplace ::
  "video_env \<Rightarrow> video_payload \<Rightarrow> video_metadata \<Rightarrow> (int \<times> string) list \<Rightarrow> world \<Rightarrow> video_run" where
  "encodeAndReplace env payload metadata prog w =
     (let keyframeInterval = Math_round (vm_fps metadata * 2);
          maxBitrate = (6000::int) * 2;
          scale = (vm_width metadata > 1920);
          prog1 = prog @ [(40, ''Processing video...'')] @
                    encoderProgress (ve_ffmpeg_progress env)
      in case ve_ffmpeg_end env of
           Inl err \<Rightarrow>
             \<lparr>vr_result = Inl err, vr_progress = prog1, vr_encoded = True, vr_world = w\<rparr>
         | Inr _ \<Rightarrow>
             (let prog2 = prog1 @ [(80, ''Uploading optimized video...'')]
              in case ve_upload env of
                   Inl err \<Rightarrow>
                     \<lparr>vr_result = Inl err, vr_progress = prog2, vr_encoded = True, vr_world = w\<rparr>
                 | Inr data \<Rightarrow>
                     if falsy data then
                       \<lparr>vr_result = Inl (Thrown ''Upload failed: No file path returned''),
                        vr_progress = prog2, vr_encoded = True, vr_world = w\<rparr>
                     else
                       (let prog3 = prog2 @ [(90, ''Finalizing...'')]
                        in case updateVersion (vp_documentVersionId payload)
                                  (\<lambda>v. v\<lparr>dv_file := (case data of Some d \<Rightarrow> d | None \<Rightarrow> [])\<rparr>) w of
                             Inl err \<Rightarrow>
                               \<lparr>vr_result = Inl err, vr_progress = prog3, vr_encoded = True,
                                vr_world = w\<rparr>
                           | Inr w1 \<Rightarrow>
                               (case ve_rm env of
                                  Inl err \<Rightarrow>
                                    \<lparr>vr_result = Inl err, vr_progress = prog3,
                                     vr_encoded = True, vr_world = w1\<rparr>
                                | Inr _ \<Rightarrow>
                                    \<lparr>vr_result =
                                       Inr \<lparr>ss_success = True,
                                            ss_message = ''Successfully optimized video''\<rparr>,
                                     vr_progress = prog3 @ [(100, ''Optimization complete'')],
                                     vr_encoded = True, vr_world = w1\<rparr>))))"

text \<open>Lines 103 to 125: persist the duration, then the size guard.\<close>

definition persistDurationAndGuard ::
  "video_env \<Rightarrow> video_payload \<Rightarrow> video_metadata \<Rightarrow> (int \<times> string) list \<Rightarrow> world \<Rightarrow> video_run" where
  "persistDurationAndGuard env payload metadata prog w =
     (case updateVersion (vp_documentVersionId payload)
             (\<lambda>v. v\<lparr>dv_length := Some (vm_duration metadata)\<rparr>) w of
        Inl err \<Rightarrow> \<lparr>vr_result = Inl err, vr_progress = prog, vr_encoded = False, vr_world = w\<rparr>
      | Inr w1 \<Rightarrow>
          if vp_fileSize payload > 500 * 1024 * 1024 then
            (case ve_rm env of
               Inl err \<Rightarrow>
                 \<lparr>vr_result = Inl err, vr_progress = prog, vr_encoded = False, vr_world = w1\<rparr>
             | Inr _ \<Rightarrow>
                 \<lparr>vr_result =
                    Inr \<lparr>ss_success = True,
                         ss_message = ''File size is too large, skipping optimization''\<rparr>,
                  vr_progress = prog @ [(100, ''Completed (skipped large file)'')],
                  vr_encoded = False, vr_world = w1\<rparr>)
          else encodeAndReplace env payload metadata prog w1)"

definition optimizeVideo :: "video_env \<Rightarrow> video_payload \<Rightarrow> world \<Rightarrow> video_run" where
  "optimizeVideo env payload w =
     (let prog0 = [(0, ''Initializing...'')];
          thrown = (\<lambda>err reported.
            \<lparr>vr_result = Inl err, vr_progress = reported, vr_encoded = False, vr_world = w\<rparr>)
      in case getFile (ve_presign env) S3_PATH (vp_videoUrl payload) of
           Inl err \<Rightarrow> thrown err prog0
         | Inr fileUrl \<Rightarrow>
             (let prog1 = prog0 @ [(10, ''Fetching video file...'')]
              in case ve_mkdir env of
                   Inl err \<Rightarrow> thrown err prog1
                 | Inr _ \<Rightarrow>
                     (case ve_fetch env of
                        Inl err \<Rightarrow> thrown err prog1
                      | Inr hasBody \<Rightarrow>
                          if \<not> hasBody then thrown (Thrown ''Failed to fetch video stream'') prog1
                          else
                            (let prog2 = prog1 @ [(20, ''Downloading video...'')]
                             in case ve_download env of
                                  Inl err \<Rightarrow> thrown err prog2
                                | Inr _ \<Rightarrow>
                                    (let prog3 = prog2 @ [(30, ''Analyzing video...'')]
                                     in case probeMetadata (ve_probe env) of
                                          Inl err \<Rightarrow> thrown err prog3
                                        | Inr metadata \<Rightarrow>
                                            persistDurationAndGuard env payload metadata
                                              prog3 w)))))"

section \<open>Notions used in the statements\<close>

text \<open>A version row with its orientation flag forgotten: what page conversions never change.\<close>

definition forgetVertical :: "document_version \<Rightarrow> document_version" where
  "forgetVertical v = v\<lparr>dv_isVertical := False\<rparr>"

text \<open>
  Some collaborator of a page conversion fails: loading the page, rendering and encoding
  it, or the upload.
\<close>

definition collaboratorsFail :: "page_env \<Rightarrow> bool" where
  "collaboratorsFail pe =
     (case pe_load pe of
        Inl _ \<Rightarrow> True
      | Inr _ \<Rightarrow>
          (case pe_render pe of
             Inl _ \<Rightarrow> True
           | Inr _ \<Rightarrow> (case s3_send (pe_put pe) of Inl _ \<Rightarrow> True | Inr _ \<Rightarrow> False)))"

text \<open>A transient answer of the conversion service: a network error or a status from 500 to 599.\<close>

definition transient :: "fetch_outcome \<Rightarrow> bool" where
  "transient outcome =
     (case outcome of FetchThrew _ \<Rightarrow> True | Responded r \<Rightarrow> 500 \<le> status r \<and> status r < 600)"

text \<open>
  A conversion gets as far as posting to the conversion service: the team and the
  document version are found and the original file's location is resolved.
\<close>

definition reachesSubmission :: "convert_env \<Rightarrow> payload \<Rightarrow> world \<Rightarrow> bool" where
  "reachesSubmission env payload w =
     (p_teamId payload \<in> set (teams w) \<and>
      (case findDocumentVersion (p_documentId payload) (p_documentVersionId payload) w of
         None \<Rightarrow> False
       | Some (name, version) \<Rightarrow>
           (case getFile (ce_presign env) (dv_storageType version)
                   (case dv_originalFile version of Some f \<Rightarrow> f | None \<Rightarrow> []) of
              Inl _ \<Rightarrow> False
            | Inr _ \<Rightarrow> True)))"

text \<open>
  A video optimization gets as far as the size guard with the metadata \<open>m\<close>: the file
  is fetched and probed, and the version row exists.
\<close>

definition reachesGuard :: "video_env \<Rightarrow> video_payload \<Rightarrow> world \<Rightarrow> video_metadata \<Rightarrow> bool" where
  "reachesGuard env payload w m =
     ((case getFile (ve_presign env) S3_PATH (vp_videoUrl payload) of Inl _ \<Rightarrow> False | Inr _ \<Rightarrow> True) \<and>
      ve_mkdir env = Inr () \<and> ve_fetch env = Inr True \<and> ve_download env = Inr () \<and>
      probeMetadata (ve_probe env) = Inr m \<and>
      findVersion (vp_documentVersionId payload) w \<noteq> None)"

text \<open>
  A progress sequence that never decreases, except that it may end with one report of 0
  (the report of a failure).
\<close>

definition monotoneUntilFailure :: "(int \<times> string) list \<Rightarrow> bool" where
  "monotoneUntilFailure prog =
     (sorted (map fst prog) \<or>
      (prog \<noteq> [] \<and> fst (last prog) = 0 \<and> sorted (map fst (butlast prog))))"

text \<open>
  The encoder's progress events are well behaved: the percentages they carry never
  decrease and lie between 0 and 100.
\<close>

definition encoderWellBehaved :: "real option list \<Rightarrow> bool" where
  "encoderWellBehaved events =
     (sorted (concat (map (\<lambda>e. case e of None \<Rightarrow> [] | Some p \<Rightarrow> [p]) events)) \<and>
      list_all (\<lambda>e. case e of None \<Rightarrow> True | Some p \<Rightarrow> 0 \<le> p \<and> p \<le> 100) events)"

section \<open>Example inputs\<close>

text \<open>
  A document \<open>d\<close> of team \<open>t\<close> with two versions: \<open>v1\<close> (number 1, not primary) and
  \<open>v2\<close> (number 2, primary).  The example page is US Letter, and its two encodings have
  the same size.
\<close>

definition ex_put :: put_env where
  "ex_put = \<lparr>s3_send = Inr (), s3_newId = ''doc_new'', slugify = (\<lambda>s. s),
             path_parse = (\<lambda>s. (s, []))\<rparr>"

definition ex_page_env :: page_env where
  "ex_page_env =
     \<lparr>pe_load = Inr \<lparr>pg_bounds = (0, 0, 612, 792), pg_links = []\<rparr>,
      pe_render = Inr ([1, 2], [3, 4]), pe_put = ex_put, pe_newPageId = ''page_a''\<rparr>"

definition ex_version1 :: document_version where
  "ex_version1 =
     \<lparr>dv_id = ''v1'', dv_documentId = ''d'', dv_file = ''t/doc_1/deck.pdf'',
      dv_originalFile = Some ''t/doc_1/deck.pptx'', dv_type = Some ''pdf'',
      dv_storageType = S3_PATH, dv_numPages = None, dv_hasPages = False,
      dv_isPrimary = False, dv_isVertical = False, dv_versionNumber = 1, dv_length = None,
      dv_contentType = Some ''application/pdf'', dv_fileSize = None\<rparr>"

definition ex_version2 :: document_version where
  "ex_version2 =
     \<lparr>dv_id = ''v2'', dv_documentId = ''d'', dv_file = ''t/doc_1/deck2.pdf'',
      dv_originalFile = Some ''t/doc_1/deck2.pdf'', dv_type = Some ''pdf'',
      dv_storageType = S3_PATH, dv_numPages = Some 3, dv_hasPages = True,
      dv_isPrimary = True, dv_isVertical = False, dv_versionNumber = 2, dv_length = None,
      dv_contentType = Some ''application/pdf'', dv_fileSize = None\<rparr>"

definition ex_world :: world where
  "ex_world =
     \<lparr>teams = [''t''], documents = [\<lparr>doc_id = ''d'', doc_name = ''deck''\<rparr>],
      versions = [ex_version1, ex_version2], pages = [], objects = []\<rparr>"

definition ex_env :: raster_env where
  "ex_env =
     \<lparr>re_presign = (\<lambda>key. Inr (''https://s3/'' @ key)), re_pageCount = Inr 1,
      re_page = (\<lambda>n. ex_page_env), re_revalidate = Inr ()\<rparr>"

text \<open>Five pages, of which the third cannot be rendered.\<close>

definition ex_env5 :: raster_env where
  "ex_env5 =
     ex_env\<lparr>re_pageCount := Inr 5,
            re_page := (\<lambda>n. if n = 3 then ex_page_env\<lparr>pe_render := Inl (External ''render failed'')\<rparr>
                            else ex_page_env)\<rparr>"

text \<open>The payload as the converters pass it (no version number) and as the upload handler does.\<close>

definition ex_payload :: payload where
  "ex_payload =
     \<lparr>p_documentId = ''d'', p_documentVersionId = ''v1'', p_teamId = ''t'',
      p_versionNumber = None\<rparr>"

definition ex_payload_numbered :: payload where
  "ex_payload_numbered = ex_payload\<lparr>p_versionNumber := Some 1\<rparr>"

text \<open>The same document with a stored page count of 1 for \<open>v1\<close>, and a two-page PDF.\<close>

definition ex_world_one :: world where
  "ex_world_one = ex_world\<lparr>versions := [ex_version1\<lparr>dv_numPages := Some 1\<rparr>, ex_version2]\<rparr>"

definition ex_env2 :: raster_env where
  "ex_env2 = ex_env\<lparr>re_pageCount := Inr 2\<rparr>"

text \<open>The same document with a stored page count of \<open>-1\<close> for \<open>v1\<close>.\<close>

definition ex_world_negative :: world where
  "ex_world_negative = ex_world\<lparr>versions := [ex_version1\<lparr>dv_numPages := Some (- 1)\<rparr>, ex_version2]\<rparr>"

text \<open>
  A conversion service that is down (every call fails in the network), one that answers
  503 to every call, and one that answers 400.
\<close>

definition ex_response :: "int \<Rightarrow> http_response" where
  "ex_response st =
     \<lparr>status = st, statusText = ''error'', json_body = Inr (Some ''failed''), body_bytes = []\<rparr>"

definition ex_convert_env :: "(nat \<Rightarrow> fetch_outcome) \<Rightarrow> convert_env" where
  "ex_convert_env fetch =
     \<lparr>ce_presign = (\<lambda>key. Inr (''https://s3/'' @ key)), ce_fetch = fetch, ce_put = ex_put,
      ce_raster = ex_env\<rparr>"

definition ex_network_down :: "nat \<Rightarrow> fetch_outcome" where
  "ex_network_down k = FetchThrew (External ''ECONNRESET'')"

definition ex_unavailable :: "nat \<Rightarrow> fetch_outcome" where
  "ex_unavailable k = Responded (ex_response 503)"

definition ex_bad_request :: "nat \<Rightarrow> fetch_outcome" where
  "ex_bad_request k = Responded (ex_response 400)"

text \<open>
  A conversion service that answers 503 to the first call and 400 from then on, and one
  that answers 404 with a body that is not JSON.
\<close>

definition ex_unavailable_then_bad :: "nat \<Rightarrow> fetch_outcome" where
  "ex_unavailable_then_bad k = (if k = 0 then Responded (ex_response 503) else Responded (ex_response 400))"

definition ex_not_json_response :: http_response where
  "ex_not_json_response =
     \<lparr>status = 404, statusText = ''Not Found'',
      json_body = Inl (External ''Unexpected token < in JSON''), body_bytes = []\<rparr>"

definition ex_not_json :: "nat \<Rightarrow> fetch_outcome" where
  "ex_not_json k = Responded ex_not_json_response"

text \<open>The collaborators of a conversion with the local renderer, all of them working.\<close>

definition ex_libre_env :: libre_env where
  "ex_libre_env =
     \<lparr>le_presign = (\<lambda>key. Inr (''https://s3/'' @ key)), le_mkdir = Inr (),
      le_download = Responded (ex_response 200), le_writeFile = Inr (),
      le_convert = Inr [37, 80, 68, 70], le_put = ex_put, le_raster = ex_env\<rparr>"

text \<open>A 12.4 second video of 1280 by 720 at 30 frames per second, and the sizes around the guard.\<close>

definition ex_video_env :: video_env where
  "ex_video_env =
     \<lparr>ve_presign = (\<lambda>key. Inr (''https://s3/'' @ key)), ve_mkdir = Inr (), ve_fetch = Inr True,
      ve_download = Inr (),
      ve_probe = Inr \<lparr>pr_streams =
                         [\<lparr>st_codec_type = ''audio'', st_width = None, st_height = None,
                           st_frame_rate = None\<rparr>,
                          \<lparr>st_codec_type = ''video'', st_width = Some 1280, st_height = Some 720,
                           st_frame_rate = Some (30, 1)\<rparr>],
                       pr_duration = Some (124 / 10)\<rparr>,
      ve_rm = Inr (), ve_ffmpeg_progress = [Some 25, None, Some 50, Some 100],
      ve_ffmpeg_end = Inr (), ve_upload = Inr (Some ''t/doc_1/optimized.mp4'')\<rparr>"

definition ex_video_payload :: "int \<Rightarrow> video_payload" where
  "ex_video_payload bytes =
     \<lparr>vp_videoUrl = ''t/doc_1/clip.mp4'', vp_teamId = ''t'', vp_docId = ''doc_1'',
      vp_documentVersionId = ''v1'', vp_fileSize = bytes\<rparr>"

section \<open>Facts about the operations\<close>

lemmas raster_defs =
  convertPdfToImage_def findVersion_def getFile_def determinePageCount_def probePageCount_def
  convertPages_def convertPdfPageToImage_def updateVersion_def renderAndUpload_def
  chooseEncoding_def putFileServer_def persistPage_def findPage_def enablePages_def
  demoteOtherVersions_def updateManyVersions_def Math_round_def Let_def

lemmas ex_defs =
  ex_put_def ex_page_env_def ex_version1_def ex_version2_def ex_world_def ex_env_def
  ex_env5_def ex_payload_def ex_payload_numbered_def ex_world_one_def ex_env2_def
  ex_response_def ex_convert_env_def ex_network_down_def ex_unavailable_def
  ex_bad_request_def ex_video_env_def ex_video_payload_def ex_libre_env_def
  ex_world_negative_def ex_unavailable_then_bad_def ex_not_json_response_def ex_not_json_def

lemma putFileServer_frame:
  "versions (snd (putFileServer env f t d w)) = versions w"
  "pages (snd (putFileServer env f t d w)) = pages w"
  "teams (snd (putFileServer env f t d w)) = teams w"
  "documents (snd (putFileServer env f t d w)) = documents w"
  by (simp_all add: putFileServer_def Let_def split: sum.splits prod.splits)

lemma putFileServer_result:
  "fst (putFileServer env f t d w) = Inr (ty, data) \<Longrightarrow> data \<noteq> [] \<and> ty = S3_PATH \<and> s3_send env = Inr ()"
  by (auto simp add: putFileServer_def Let_def split: sum.splits prod.splits)

lemma putFileServer_fail:
  "fst (putFileServer env f t d w) = Inl e \<longleftrightarrow> s3_send env = Inl e"
  by (auto simp add: putFileServer_def Let_def split: sum.splits prod.splits)

lemma renderAndUpload_frame:
  "versions (snd (renderAndUpload pe n url t w)) = versions w"
  "pages (snd (renderAndUpload pe n url t w)) = pages w"
  by (simp_all add: renderAndUpload_def Let_def putFileServer_def split: sum.splits prod.splits)

lemma renderAndUpload_outcome:
  "(\<exists>e. fst (renderAndUpload pe n url t w) = Inl e) \<longleftrightarrow>
     (case pe_render pe of Inl _ \<Rightarrow> True | Inr _ \<Rightarrow> (case s3_send (pe_put pe) of Inl _ \<Rightarrow> True | Inr _ \<Rightarrow> False))"
  by (auto simp add: renderAndUpload_def Let_def putFileServer_def split: sum.splits prod.splits)

lemma updateVersion_vertical:
  "updateVersion vid (\<lambda>v. v\<lparr>dv_isVertical := b\<rparr>) w = Inr w1 \<Longrightarrow>
     map forgetVertical (versions w1) = map forgetVertical (versions w) \<and> pages w1 = pages w \<and> objects w1 = objects w"
  by (auto simp add: updateVersion_def forgetVertical_def split: option.splits)

lemma findPage_cong: "pages w' = pages w \<Longrightarrow> findPage n vid w' = findPage n vid w"
  by (simp add: findPage_def)

lemma findVersion_forget:
  "map forgetVertical (versions w') = map forgetVertical (versions w) \<Longrightarrow>
     map_option forgetVertical (findVersion vid w') = map_option forgetVertical (findVersion vid w)"
proof -
  have *: "\<And>xs. map_option forgetVertical (find (\<lambda>v. dv_id v = vid) xs) = find (\<lambda>v. dv_id v = vid) (map forgetVertical xs)"
    subgoal for xs by (induction xs) (auto simp: forgetVertical_def)
    done
  assume "map forgetVertical (versions w') = map forgetVertical (versions w)"
  then show ?thesis by (simp add: findVersion_def *)
qed


lemma renderAndUpload_eq:
  "renderAndUpload pe n url t w = (r, w') \<Longrightarrow> versions w' = versions w \<and> pages w' = pages w"
  using renderAndUpload_frame[of pe n url t w] by simp

lemma persistPage_versions: "versions (snd (persistPage i vid n d ty l m w)) = versions w"
  by (simp add: persistPage_def split: option.splits)

lemma page_versions:
  "map forgetVertical (versions (snd (convertPdfPageToImage pe vid n url t w))) = map forgetVertical (versions w)"
  unfolding convertPdfPageToImage_def Let_def
  by (auto simp add: persistPage_versions
       dest!: updateVersion_vertical renderAndUpload_eq
       split: sum.splits prod.splits)

lemma find_snoc:
  "find P (xs @ [p]) = (case find P xs of None \<Rightarrow> (if P p then Some p else None) | Some x \<Rightarrow> Some x)"
  by (induction xs) auto

lemma renderAndUpload_fst:
  "renderAndUpload pe n url t w = (r, w') \<Longrightarrow>
     (\<exists>e. r = Inl e) = (case pe_render pe of Inl _ \<Rightarrow> True | Inr _ \<Rightarrow> (case s3_send (pe_put pe) of Inl _ \<Rightarrow> True | Inr _ \<Rightarrow> False))"
  using renderAndUpload_outcome[of pe n url t w] by simp

lemma persistPage_result: "fst (persistPage i vid n d ty l m w) \<noteq> Inl e"
  by (simp add: persistPage_def split: option.splits)

lemma updateVersion_ok: "findVersion vid w \<noteq> None \<Longrightarrow> \<exists>w1. updateVersion vid f w = Inr w1"
  by (auto simp: updateVersion_def split: option.splits)

lemma page_outcome:
  assumes "findVersion vid w \<noteq> None \<or> n \<noteq> 1"
  shows "(\<exists>e. fst (convertPdfPageToImage pe vid n url t w) = Inl e) \<longleftrightarrow> collaboratorsFail pe"
proof (cases "pe_load pe")
  case (Inl e)
  then show ?thesis by (simp add: convertPdfPageToImage_def collaboratorsFail_def)
next
  case (Inr page)
  obtain ulx uly lrx lry where b: "pg_bounds page = (ulx, uly, lrx, lry)"
    by (cases "pg_bounds page") auto
  obtain w1 where w1: "(if n = 1 then updateVersion vid (\<lambda>v. v\<lparr>dv_isVertical := \<bar>lry - uly\<bar> > \<bar>lrx - ulx\<bar>\<rparr>) w else Inr w) = Inr w1"
  proof (cases "n = 1")
    case True
    with assms have "findVersion vid w \<noteq> None" by simp
    from updateVersion_ok[OF this] True that show ?thesis by fastforce
  next
    case False
    with that show ?thesis by simp
  qed
  obtain r w2 where ru: "renderAndUpload pe n url t w1 = (r, w2)"
    by (cases "renderAndUpload pe n url t w1") auto
  show ?thesis
    using renderAndUpload_fst[OF ru]
    by (cases r)
       (auto simp add: convertPdfPageToImage_def Let_def Inr b w1 ru collaboratorsFail_def
          persistPage_result split: sum.splits prod.splits)
qed

lemma updateVersion_frame:
  "updateVersion vid f w = Inr w1 \<Longrightarrow> pages w1 = pages w \<and> objects w1 = objects w \<and> teams w1 = teams w \<and> documents w1 = documents w"
  by (auto simp add: updateVersion_def split: option.splits)

lemma persistPage_pages:
  "persistPage i vid n d ty l m w = (r, w') \<Longrightarrow>
     (case findPage n vid w of
        Some p \<Rightarrow> pages w' = pages w \<and> r = Inr (dp_id p)
      | None \<Rightarrow> r = Inr i \<and> (\<exists>p. pages w' = pages w @ [p] \<and> dp_pageNumber p = n \<and> dp_versionId p = vid \<and> dp_id p = i))"
  by (auto simp add: persistPage_def split: option.splits)

lemma page_pages:
  assumes "convertPdfPageToImage pe vid n url t w = (r, w')"
  shows "case r of
           Inl e \<Rightarrow> pages w' = pages w
         | Inr i \<Rightarrow>
             (case findPage n vid w of
                Some p \<Rightarrow> pages w' = pages w \<and> i = dp_id p
              | None \<Rightarrow> \<exists>p. pages w' = pages w @ [p] \<and> dp_pageNumber p = n \<and> dp_versionId p = vid \<and> dp_id p = i)"
proof (cases "pe_load pe")
  case (Inl e)
  with assms show ?thesis by (auto simp add: convertPdfPageToImage_def)
next
  case (Inr page)
  obtain ulx uly lrx lry where b: "pg_bounds page = (ulx, uly, lrx, lry)"
    by (cases "pg_bounds page") auto
  let ?upd = "(if n = 1 then updateVersion vid (\<lambda>v. v\<lparr>dv_isVertical := \<bar>lry - uly\<bar> > \<bar>lrx - ulx\<bar>\<rparr>) w else Inr w)"
  show ?thesis
  proof (cases ?upd)
    case (Inl e)
    with assms Inr b show ?thesis by (auto simp add: convertPdfPageToImage_def)
  next
    case w1: (Inr w1)
    then have p1: "pages w1 = pages w"
      by (auto dest: updateVersion_frame split: if_splits)
    obtain r2 w2 where ru: "renderAndUpload pe n url t w1 = (r2, w2)"
      by (cases "renderAndUpload pe n url t w1") auto
    then have p2: "pages w2 = pages w" using renderAndUpload_eq p1 by metis
    show ?thesis
    proof (cases r2)
      case (Inl e)
      with assms Inr b w1 ru p2 show ?thesis by (auto simp add: convertPdfPageToImage_def Let_def)
    next
      case r2: (Inr td)
      obtain ty d where td: "td = (ty, d)" by (cases td) auto
      from assms Inr b w1 ru r2 td obtain m where
        "persistPage (pe_newPageId pe) vid n d ty (pg_links page) m w2 = (r, w')"
        by (auto simp add: convertPdfPageToImage_def Let_def)
      from persistPage_pages[OF this] p2 findPage_cong[OF p2, of n vid]
      show ?thesis by (auto split: option.splits sum.splits)
    qed
  qed
qed

lemma pageLoop_versions:
  "map forgetVertical (versions (ls_world (pageLoop env vid url t numPages i s))) =
     map forgetVertical (versions (ls_world s))"
proof (induction env vid url t numPages i s rule: pageLoop.induct)
  case (1 env vid url t numPages i s)
  show ?case
  proof (cases "i < numPages \<and> ls_conversionWithoutError s")
    case True
    then show ?thesis
      using "1.IH"[OF _ _ refl refl] 
      by (subst pageLoop.simps) (simp add: Let_def page_versions)
  next
    case False
    then show ?thesis by (subst pageLoop.simps) auto
  qed
qed

lemma pageLoop_calls:
  "\<exists>cs. ls_calls (pageLoop env vid url t numPages i s) = ls_calls s @ cs \<and> GetPdfPageCount \<notin> set cs"
proof (induction env vid url t numPages i s rule: pageLoop.induct)
  case (1 env vid url t numPages i s)
  show ?case
  proof (cases "i < numPages \<and> ls_conversionWithoutError s")
    case True
    then show ?thesis
      using "1.IH"[OF _ _ refl refl] 
      by (subst pageLoop.simps) (auto simp add: Let_def)
  next
    case False
    then show ?thesis by (subst pageLoop.simps) auto
  qed
qed

lemma enablePages_success:
  "rr_result (enablePages env payload n prog calls w) = Inr (Some res) \<Longrightarrow>
     \<exists>w1. updateVersion (p_documentVersionId payload)
             (\<lambda>v. v\<lparr>dv_numPages := Some n, dv_hasPages := True, dv_isPrimary := True\<rparr>) w = Inr w1 \<and>
          rr_world (enablePages env payload n prog calls w) = demoteOtherVersions payload w1"
  by (auto simp add: enablePages_def Let_def split: sum.splits)

lemma convertPages_success:
  assumes "rr_result (convertPages env payload url n prog calls w) = Inr (Some res)"
  shows "\<exists>wL progL callsL.
           map forgetVertical (versions wL) = map forgetVertical (versions w) \<and>
           convertPages env payload url n prog calls w = enablePages env payload n progL callsL wL"
proof -
  let ?s = "pageLoop env (p_documentVersionId payload) url (p_teamId payload) n 0
              \<lparr>ls_currentPage = 0, ls_conversionWithoutError = True,
               ls_progress = prog @ [(20, ''Converting document...'')],
               ls_calls = calls, ls_world = w\<rparr>"
  have ok: "ls_conversionWithoutError ?s"
    using assms by (cases "ls_conversionWithoutError ?s") (simp_all add: convertPages_def Let_def)
  have "map forgetVertical (versions (ls_world ?s)) = map forgetVertical (versions w)"
    using pageLoop_versions[of env "p_documentVersionId payload" url "p_teamId payload" n 0] by simp
  moreover have "convertPages env payload url n prog calls w =
      enablePages env payload n (ls_progress ?s) (ls_calls ?s) (ls_world ?s)"
    using ok by (simp add: convertPages_def Let_def)
  ultimately show ?thesis by blast
qed

lemma convertPdfToImage_success:
  assumes "rr_result (convertPdfToImage env payload w) = Inr (Some res)"
  shows "\<exists>url n prog calls. convertPdfToImage env payload w = convertPages env payload url n prog calls w"
proof (cases "findVersion (p_documentVersionId payload) w")
  case None
  with assms show ?thesis by (simp add: convertPdfToImage_def)
next
  case (Some ver)
  show ?thesis
  proof (cases "getFile (re_presign env) (dv_storageType ver) (dv_file ver)")
    case (Inl e)
    with assms Some show ?thesis by (simp add: convertPdfToImage_def)
  next
    case (Inr signedUrl)
    show ?thesis
    proof (cases "signedUrl = []")
      case True
      with assms Some Inr show ?thesis by (simp add: convertPdfToImage_def)
    next
      case False
      obtain pc calls where d: "determinePageCount env (dv_numPages ver) = (pc, calls)"
        by (cases "determinePageCount env (dv_numPages ver)") auto
      show ?thesis
        using assms Some Inr False d
        by (cases pc) (auto simp add: convertPdfToImage_def)
    qed
  qed
qed

lemma filter_eq_single: "distinct xs \<Longrightarrow> x \<in> set xs \<Longrightarrow> filter (\<lambda>i. i = x) xs = [x]"
  by (induction xs) (auto simp: filter_empty_conv)

lemma primary_elem:
  assumes "dv_id v = vid \<longrightarrow> dv_documentId v = d \<and> dv_versionNumber v = vn"
      and "dv_documentId v = d \<and> dv_id v \<noteq> vid \<longrightarrow> dv_versionNumber v \<noteq> vn"
      and "v1 = (if dv_id v = vid
                  then v\<lparr>dv_numPages := Some n, dv_hasPages := True, dv_isPrimary := True\<rparr> else v)"
      and "v2 = (if dv_documentId v1 = d \<and> dv_versionNumber v1 \<noteq> vn then v1\<lparr>dv_isPrimary := False\<rparr> else v1)"
  shows "dv_id v2 = dv_id v \<and> (dv_documentId v2 = d \<and> dv_isPrimary v2) = (dv_id v = vid)"
proof (cases "dv_id v = vid")
  case True
  with assms show ?thesis by simp
next
  case False
  with assms(3) have v1: "v1 = v" by simp
  show ?thesis
  proof (cases "dv_documentId v = d")
    case True
    with False assms(2) have "dv_versionNumber v \<noteq> vn" by simp
    with True False v1 assms(4) show ?thesis by simp
  next
    case d: False
    with v1 assms(4) have "v2 = v" by simp
    with d False show ?thesis by simp
  qed
qed

lemma primary_ids:
  assumes a1: "\<forall>v\<in>set ys. dv_id v = vid \<longrightarrow> dv_documentId v = d \<and> dv_versionNumber v = vn"
      and a2: "\<forall>v\<in>set ys. dv_documentId v = d \<and> dv_id v \<noteq> vid \<longrightarrow> dv_versionNumber v \<noteq> vn"
  shows "map dv_id (filter (\<lambda>v. dv_documentId v = d \<and> dv_isPrimary v)
           (map (\<lambda>v. if dv_documentId v = d \<and> dv_versionNumber v \<noteq> vn then v\<lparr>dv_isPrimary := False\<rparr> else v)
             (map (\<lambda>v. if dv_id v = vid
                        then v\<lparr>dv_numPages := Some n, dv_hasPages := True, dv_isPrimary := True\<rparr> else v) ys))) =
         filter (\<lambda>i. i = vid) (map dv_id ys)"
    (is "map dv_id (filter ?P (map ?g2 (map ?g1 ys))) = _")
proof -
  have el: "dv_id (?g2 (?g1 v)) = dv_id v \<and> ?P (?g2 (?g1 v)) = (dv_id v = vid)" if "v \<in> set ys" for v
    using primary_elem[OF _ _ refl refl, of v vid d vn n] a1 a2 that by blast
  have "map dv_id (filter ?P (map ?g2 (map ?g1 ys))) =
        map (\<lambda>v. dv_id (?g2 (?g1 v))) (filter (\<lambda>v. ?P (?g2 (?g1 v))) ys)"
    by (simp only: map_map filter_map comp_def)
  also have "\<dots> = map dv_id (filter (\<lambda>v. dv_id v = vid) ys)"
  proof -
    have f: "filter (\<lambda>v. ?P (?g2 (?g1 v))) ys = filter (\<lambda>v. dv_id v = vid) ys"
      by (rule filter_cong[OF refl]) (use el in blast)
    have m: "map (\<lambda>v. dv_id (?g2 (?g1 v))) (filter (\<lambda>v. dv_id v = vid) ys) =
             map dv_id (filter (\<lambda>v. dv_id v = vid) ys)"
      by (rule map_cong[OF refl]) (use el in auto)
    show ?thesis by (simp only: f m)
  qed
  also have "\<dots> = filter (\<lambda>i. i = vid) (map dv_id ys)"
    by (simp add: filter_map comp_def)
  finally show ?thesis .
qed

lemma forget_transfer:
  assumes eq: "map forgetVertical ys = map forgetVertical xs"
      and Q: "\<forall>v\<in>set xs. Q (dv_id v) (dv_documentId v) (dv_versionNumber v)"
  shows "\<forall>v\<in>set ys. Q (dv_id v) (dv_documentId v) (dv_versionNumber v)"
proof -
  have "\<forall>u\<in>set (map forgetVertical xs). Q (dv_id u) (dv_documentId u) (dv_versionNumber u)"
    using Q by (auto simp: forgetVertical_def)
  then have "\<forall>u\<in>set (map forgetVertical ys). Q (dv_id u) (dv_documentId u) (dv_versionNumber u)"
    by (simp only: eq)
  then show ?thesis by (auto simp: forgetVertical_def)
qed

lemma forget_ids: "map forgetVertical ys = map forgetVertical xs \<Longrightarrow> map dv_id ys = map dv_id xs"
proof -
  assume eq: "map forgetVertical ys = map forgetVertical xs"
  have "map dv_id ys = map dv_id (map forgetVertical ys)" by (simp add: forgetVertical_def comp_def)
  also have "\<dots> = map dv_id (map forgetVertical xs)" by (simp only: eq)
  also have "\<dots> = map dv_id xs" by (simp add: forgetVertical_def comp_def)
  finally show ?thesis .
qed

lemma find_SomeD: "find P xs = Some x \<Longrightarrow> x \<in> set xs \<and> P x"
  by (induction xs) (auto split: if_splits)

lemma find_distinct_id:
  "distinct (map dv_id xs) \<Longrightarrow> find (\<lambda>v. dv_id v = vid) xs = Some ver \<Longrightarrow>
     \<forall>v\<in>set xs. dv_id v = vid \<longrightarrow> v = ver"
  by (induction xs) (auto split: if_splits simp: find_Some_iff image_iff)

lemma page_findPage:
  assumes "convertPdfPageToImage pe vid n url t w = (r, w')"
  shows "(m \<noteq> n \<or> v \<noteq> vid \<longrightarrow> findPage m v w' = findPage m v w) \<and>
         (case r of Inl _ \<Rightarrow> findPage n vid w' = findPage n vid w
          | Inr i \<Rightarrow> \<exists>p. findPage n vid w' = Some p \<and> dp_id p = i)"
  using page_pages[OF assms]
  by (cases r; cases "findPage n vid w")
     (auto simp add: findPage_def find_snoc split: option.splits)

lemma convertPages_calls:
  "\<exists>cs. rr_calls (convertPages env payload url n prog calls w) = calls @ cs \<and> GetPdfPageCount \<notin> set cs"
proof -
  let ?s0 = "\<lparr>ls_currentPage = 0, ls_conversionWithoutError = True,
               ls_progress = prog @ [(20, ''Converting document...'')],
               ls_calls = calls, ls_world = w\<rparr>"
  from pageLoop_calls[of env "p_documentVersionId payload" url "p_teamId payload" n 0 ?s0]
  show ?thesis
    by (auto simp add: convertPages_def enablePages_def Let_def split: sum.splits)
qed

lemma convertPages_probed:
  "GetPdfPageCount \<in> set (rr_calls (convertPages env payload url n prog calls w)) \<longleftrightarrow>
     GetPdfPageCount \<in> set calls"
  using convertPages_calls[of env payload url n prog calls w] by auto

lemma find_None_filter: "find P xs = None \<Longrightarrow> filter P xs = []"
  by (induction xs) (auto split: if_splits)

lemma find_map_id:
  "(\<And>v. dv_id (g v) = dv_id v) \<Longrightarrow>
     find (\<lambda>v. dv_id v = vid) (map g xs) = map_option g (find (\<lambda>v. dv_id v = vid) xs)"
  by (induction xs) auto

lemma find_map_numPages:
  "(\<And>v. dv_id (g v) = dv_id v \<and> dv_numPages (g v) = dv_numPages v) \<Longrightarrow>
     map_option dv_numPages (find (\<lambda>v. dv_id v = vid) (map g xs)) =
     map_option dv_numPages (find (\<lambda>v. dv_id v = vid) xs)"
  by (induction xs) auto

lemma demote_numPages:
  "map_option dv_numPages (findVersion vid (demoteOtherVersions payload w)) =
     map_option dv_numPages (findVersion vid w)"
proof (cases "p_versionNumber payload")
  case None
  then show ?thesis by (simp add: demoteOtherVersions_def)
next
  case (Some vn)
  show ?thesis
  proof (cases "vn = 0")
    case True
    with Some show ?thesis by (simp add: demoteOtherVersions_def)
  next
    case False
    have "map_option dv_numPages (find (\<lambda>v. dv_id v = vid)
            (map (\<lambda>v. if dv_documentId v = p_documentId payload \<and> dv_versionNumber v \<noteq> vn
                       then v\<lparr>dv_isPrimary := False\<rparr> else v) (versions w))) =
          map_option dv_numPages (find (\<lambda>v. dv_id v = vid) (versions w))"
      by (rule find_map_numPages) simp
    with Some False show ?thesis
      by (simp add: demoteOtherVersions_def updateManyVersions_def findVersion_def)
  qed
qed

lemma updateVersion_numPages:
  assumes "findVersion vid w \<noteq> None"
  shows "\<exists>w1. updateVersion vid (\<lambda>v. v\<lparr>dv_numPages := Some n, dv_hasPages := True, dv_isPrimary := True\<rparr>) w = Inr w1 \<and>
              map_option dv_numPages (findVersion vid w1) = Some (Some n)"
proof -
  let ?g = "\<lambda>v. if dv_id v = vid then v\<lparr>dv_numPages := Some n, dv_hasPages := True, dv_isPrimary := True\<rparr> else v"
  from assms obtain v where v: "find (\<lambda>v. dv_id v = vid) (versions w) = Some v"
    by (auto simp add: findVersion_def)
  then have id: "dv_id v = vid" using find_SomeD by fastforce
  have "find (\<lambda>v. dv_id v = vid) (map ?g (versions w)) = map_option ?g (find (\<lambda>v. dv_id v = vid) (versions w))"
    by (rule find_map_id) simp
  with v id show ?thesis
    by (simp add: updateVersion_def findVersion_def)
qed

lemma enablePages_outcome:
  assumes "findVersion (p_documentVersionId payload) w \<noteq> None"
  shows "(\<forall>res. rr_result (enablePages env payload n prog calls w) = Inr (Some res) \<longrightarrow> rs_totalPages res = n) \<and>
         (re_revalidate env = Inr () \<longrightarrow>
            rr_result (enablePages env payload n prog calls w) =
              Inr (Some \<lparr>rs_success = True, rs_message = ''Successfully converted PDF to images'',
                         rs_totalPages = n\<rparr>)) \<and>
         rr_calls (enablePages env payload n prog calls w) = calls \<and>
         map_option dv_numPages
           (findVersion (p_documentVersionId payload) (rr_world (enablePages env payload n prog calls w))) =
           Some (Some n)"
proof -
  from updateVersion_numPages[OF assms, of n] obtain w1 where
    u: "updateVersion (p_documentVersionId payload)
          (\<lambda>v. v\<lparr>dv_numPages := Some n, dv_hasPages := True, dv_isPrimary := True\<rparr>) w = Inr w1"
    and s: "map_option dv_numPages (findVersion (p_documentVersionId payload) w1) = Some (Some n)"
    by blast
  show ?thesis
    by (cases "re_revalidate env") (simp_all add: enablePages_def Let_def u s demote_numPages)
qed

lemma pageLoop_stopped:
  "\<not> ls_conversionWithoutError s \<Longrightarrow> pageLoop env vid url t n i s = s"
  by (subst pageLoop.simps) simp

lemma pageLoop_pages:
  "\<exists>j. i \<le> j \<and> j \<le> max i n \<and>
       ls_calls (pageLoop env vid url t n i s) = ls_calls s @ map ConvertPage [i + 1..j] \<and>
       (ls_conversionWithoutError s \<longrightarrow> ls_conversionWithoutError (pageLoop env vid url t n i s) \<longrightarrow> j = max i n)"
proof (induction env vid url t n i s rule: pageLoop.induct)
  case (1 env vid url t n i s)
  show ?case
  proof (cases "i < n \<and> ls_conversionWithoutError s")
    case True
    let ?r = "convertPdfPageToImage (re_page env (i + 1)) vid (i + 1) url t (ls_world s)"
    let ?s' = "\<lparr>ls_currentPage = i + 1,
                ls_conversionWithoutError = (case fst ?r of Inl _ \<Rightarrow> False | Inr _ \<Rightarrow> True),
                ls_progress = ls_progress s @
                  [(Math_round (of_int (i + 1) / of_int n * 100),
                    numberToString (i + 1) @ '' / '' @ numberToString n @ '' pages processed'')],
                ls_calls = ls_calls s @ [ConvertPage (i + 1)], ls_world = snd ?r\<rparr>"
    have unf: "pageLoop env vid url t n i s = pageLoop env vid url t n (i + 1) ?s'"
      using True by (subst pageLoop.simps) (simp add: Let_def)
    from "1.IH"[OF _ _ refl refl] True
    obtain j where j: "i + 1 \<le> j" "j \<le> max (i + 1) n"
      "ls_calls (pageLoop env vid url t n (i + 1) ?s') = ls_calls ?s' @ map ConvertPage [i + 1 + 1..j]"
      "ls_conversionWithoutError ?s' \<longrightarrow> ls_conversionWithoutError (pageLoop env vid url t n (i + 1) ?s') \<longrightarrow> j = max (i + 1) n"
      by blast
    have up: "[i + 1..j] = (i + 1) # [i + 1 + 1..j]" using j(1) by (simp add: upto_rec1)
    have ok': "ls_conversionWithoutError (pageLoop env vid url t n (i + 1) ?s') \<Longrightarrow> ls_conversionWithoutError ?s'"
      using pageLoop_stopped[of ?s' env vid url t n "i + 1"] by (cases "ls_conversionWithoutError ?s'") simp_all
    show ?thesis
    proof (intro exI[of _ j] conjI impI)
      show "i \<le> j" using j(1) by simp
      show "j \<le> max i n" using j(2) True by simp
      show "ls_calls (pageLoop env vid url t n i s) = ls_calls s @ map ConvertPage [i + 1..j]"
        by (simp only: unf j(3) up) simp
      show "j = max i n" if "ls_conversionWithoutError (pageLoop env vid url t n i s)"
        using that ok' j(4) True unfolding unf by auto
    qed
  next
    case False
    then have "pageLoop env vid url t n i s = s" by (subst pageLoop.simps) auto
    then show ?thesis using False by (intro exI[of _ i]) auto
  qed
qed

lemma pageLoop_all_converted:
  assumes "findVersion vid (ls_world s) \<noteq> None"
      and "ls_conversionWithoutError s"
      and "\<forall>p. i < p \<and> p \<le> n \<longrightarrow> \<not> collaboratorsFail (re_page env p)"
  shows "ls_conversionWithoutError (pageLoop env vid url t n i s)"
  using assms
proof (induction env vid url t n i s rule: pageLoop.induct)
  case (1 env vid url t n i s)
  show ?case
  proof (cases "i < n")
    case True
    let ?r = "convertPdfPageToImage (re_page env (i + 1)) vid (i + 1) url t (ls_world s)"
    let ?s' = "\<lparr>ls_currentPage = i + 1,
                ls_conversionWithoutError = (case fst ?r of Inl _ \<Rightarrow> False | Inr _ \<Rightarrow> True),
                ls_progress = ls_progress s @
                  [(Math_round (of_int (i + 1) / of_int n * 100),
                    numberToString (i + 1) @ '' / '' @ numberToString n @ '' pages processed'')],
                ls_calls = ls_calls s @ [ConvertPage (i + 1)], ls_world = snd ?r\<rparr>"
    have unf: "pageLoop env vid url t n i s = pageLoop env vid url t n (i + 1) ?s'"
      using True "1.prems"(2) by (subst pageLoop.simps) (simp add: Let_def)
    have nf: "\<not> collaboratorsFail (re_page env (i + 1))" using "1.prems"(3) True by simp
    have r: "\<exists>x. fst ?r = Inr x"
      using page_outcome[of vid "ls_world s" "i + 1" "re_page env (i + 1)" url t] "1.prems"(1) nf
      by (cases "fst ?r") auto
    have v: "findVersion vid (ls_world ?s') \<noteq> None"
      using findVersion_forget[OF page_versions, of vid "re_page env (i + 1)" vid "i + 1" url t "ls_world s"]
            "1.prems"(1)
      by (cases "findVersion vid (snd ?r)") auto
    have ok: "ls_conversionWithoutError ?s'" using r by auto
    have rest: "\<forall>p. i + 1 < p \<and> p \<le> n \<longrightarrow> \<not> collaboratorsFail (re_page env p)"
      using "1.prems"(3) by auto
    from "1.IH"[OF _ _ refl refl v ok rest] True "1.prems"(2)
    show ?thesis unfolding unf by simp
  next
    case False
    then have "pageLoop env vid url t n i s = s" by (subst pageLoop.simps) auto
    then show ?thesis using "1.prems"(2) by simp
  qed
qed

lemma convertPages_outcome:
  assumes v: "findVersion (p_documentVersionId payload) w \<noteq> None"
  shows "(\<exists>j. 0 \<le> j \<and> j \<le> max 0 n \<and>
              rr_calls (convertPages env payload url n prog calls w) = calls @ map ConvertPage [1..j]) \<and>
         (\<forall>res. rr_result (convertPages env payload url n prog calls w) = Inr (Some res) \<longrightarrow>
              rs_totalPages res = n \<and>
              rr_calls (convertPages env payload url n prog calls w) = calls @ map ConvertPage [1..n] \<and>
              map_option dv_numPages
                (findVersion (p_documentVersionId payload)
                   (rr_world (convertPages env payload url n prog calls w))) = Some (Some n)) \<and>
         ((\<forall>p. 1 \<le> p \<and> p \<le> n \<longrightarrow> \<not> collaboratorsFail (re_page env p)) \<and>
          re_revalidate env = Inr () \<longrightarrow>
            rr_result (convertPages env payload url n prog calls w) =
              Inr (Some \<lparr>rs_success = True, rs_message = ''Successfully converted PDF to images'',
                         rs_totalPages = n\<rparr>))"
proof -
  let ?vid = "p_documentVersionId payload"
  let ?init = "\<lparr>ls_currentPage = 0, ls_conversionWithoutError = True,
              ls_progress = prog @ [(20, ''Converting document...'')],
              ls_calls = calls, ls_world = w\<rparr>"
  let ?s = "pageLoop env ?vid url (p_teamId payload) n 0 ?init"
  let ?R = "convertPages env payload url n prog calls w"
  from pageLoop_pages[of 0 n env ?vid url "p_teamId payload" ?init]
  obtain j where j: "0 \<le> j" "j \<le> max 0 n" "ls_calls ?s = calls @ map ConvertPage [1..j]"
    "ls_conversionWithoutError ?s \<longrightarrow> j = max 0 n"
    by auto
  show ?thesis
  proof (cases "ls_conversionWithoutError ?s")
    case False
    then have R: "rr_result ?R = Inr None" "rr_calls ?R = ls_calls ?s"
      by (simp_all add: convertPages_def Let_def)
    have "\<not> (\<forall>p. 1 \<le> p \<and> p \<le> n \<longrightarrow> \<not> collaboratorsFail (re_page env p))"
    proof
      assume "\<forall>p. 1 \<le> p \<and> p \<le> n \<longrightarrow> \<not> collaboratorsFail (re_page env p)"
      then have "\<forall>p. 0 < p \<and> p \<le> n \<longrightarrow> \<not> collaboratorsFail (re_page env p)" by auto
      from pageLoop_all_converted[of ?vid ?init 0 n env url "p_teamId payload", OF _ _ this] v
      have "ls_conversionWithoutError ?s" by simp
      with False show False by simp
    qed
    with R j show ?thesis by auto
  next
    case True
    then have R: "?R = enablePages env payload n (ls_progress ?s) (ls_calls ?s) (ls_world ?s)"
      by (simp add: convertPages_def Let_def)
    have vs: "findVersion ?vid (ls_world ?s) \<noteq> None"
      using findVersion_forget[OF pageLoop_versions, of ?vid env ?vid url "p_teamId payload" n 0 ?init] v
      by (cases "findVersion ?vid (ls_world ?s)") auto
    have jn: "map ConvertPage [1..j] = map ConvertPage [1..n]"
      using j(4) True by (cases "0 \<le> n") (simp_all add: max_def)
    from enablePages_outcome[OF vs, of env n "ls_progress ?s" "ls_calls ?s"] j jn
    show ?thesis unfolding R by auto
  qed
qed

section \<open>The claims about the rasterizer\<close>

text \<open>
  C1 (as amended).  For every page that is rasterized, the rasterizer encodes the pixmap
  as PNG and as JPEG, and the object it persists holds the PNG bytes when the PNG is
  strictly smaller and the JPEG bytes otherwise; its length is the smaller of the two
  lengths.  When the two lengths are equal the JPEG encoding is the one persisted, not the
  PNG.
\<close>

theorem encoding_selection:
  assumes "convertPdfPageToImage pe vid n url t w = (Inr i, w')"
      and "pe_render pe = Inr (pngBuffer, jpegBuffer)"
  shows "\<exists>key. objects w' = objects w @
           [\<lparr>obj_key = key,
             obj_body = (if length pngBuffer < length jpegBuffer then pngBuffer else jpegBuffer),
             obj_contentType = (if length pngBuffer < length jpegBuffer then ''image/png'' else ''image/jpeg'')\<rparr>] \<and>
          length (obj_body (last (objects w'))) = min (length pngBuffer) (length jpegBuffer)"
proof (cases "pe_load pe")
  case (Inl e)
  with assms show ?thesis by (auto simp add: convertPdfPageToImage_def)
next
  case (Inr page)
  obtain ulx uly lrx lry where b: "pg_bounds page = (ulx, uly, lrx, lry)"
    by (cases "pg_bounds page") auto
  let ?upd = "(if n = 1 then updateVersion vid (\<lambda>v. v\<lparr>dv_isVertical := \<bar>lry - uly\<bar> > \<bar>lrx - ulx\<bar>\<rparr>) w else Inr w)"
  show ?thesis
  proof (cases ?upd)
    case (Inl e)
    with assms Inr b show ?thesis by (auto simp add: convertPdfPageToImage_def)
  next
    case w1: (Inr w1)
    then have o1: "objects w1 = objects w"
      by (auto dest: updateVersion_frame split: if_splits)
    obtain r2 w2 where ru: "renderAndUpload pe n url t w1 = (r2, w2)"
      by (cases "renderAndUpload pe n url t w1") auto
    show ?thesis
    proof (cases r2)
      case (Inl e)
      with assms Inr b w1 ru show ?thesis by (auto simp add: convertPdfPageToImage_def Let_def)
    next
      case r2: (Inr td)
      obtain ty d where td: "td = (ty, d)" by (cases td) auto
      from assms Inr b w1 ru r2 td obtain m where
        pp: "persistPage (pe_newPageId pe) vid n d ty (pg_links page) m w2 = (Inr i, w')"
        by (auto simp add: convertPdfPageToImage_def Let_def)
      then have o3: "objects w' = objects w2"
        by (auto simp add: persistPage_def split: option.splits)
      from ru r2 td assms(2) have "\<exists>key. objects w2 = objects w1 @
           [\<lparr>obj_key = key,
             obj_body = (if length pngBuffer < length jpegBuffer then pngBuffer else jpegBuffer),
             obj_contentType = (if length pngBuffer < length jpegBuffer then ''image/png'' else ''image/jpeg'')\<rparr>]"
        by (auto simp add: renderAndUpload_def chooseEncoding_def putFileServer_def Let_def
              split: sum.splits prod.splits if_splits)
      with o1 o3 show ?thesis by auto
    qed
  qed
qed

theorem encoding_selection_witness:
  "pe_render ex_page_env = Inr ([1, 2], [3, 4]) \<and>
   (\<exists>key. objects (snd (convertPdfPageToImage ex_page_env ''v1'' 1 ''https://s3/t/doc_1/deck.pdf'' ''t'' ex_world)) =
      objects ex_world @ [\<lparr>obj_key = key, obj_body = [3, 4], obj_contentType = ''image/jpeg''\<rparr>])"
proof -
  have h: "convertPdfPageToImage ex_page_env ''v1'' 1 ''https://s3/t/doc_1/deck.pdf'' ''t'' ex_world =
        (Inr ''page_a'', snd (convertPdfPageToImage ex_page_env ''v1'' 1 ''https://s3/t/doc_1/deck.pdf'' ''t'' ex_world))"
    by (simp add: raster_defs ex_defs)
  have r: "pe_render ex_page_env = Inr ([1, 2], [3, 4])" by (simp add: ex_defs)
  from encoding_selection[OF h r] r show ?thesis by simp
qed

theorem encoding_tie_counterexample:
  "length [1, 2 :: 8 word] = length [3, 4 :: 8 word] \<and>
   pe_render ex_page_env = Inr ([1, 2], [3, 4]) \<and>
   map obj_body (objects (snd (convertPdfPageToImage ex_page_env ''v1'' 1 ''https://s3/t/doc_1/deck.pdf'' ''t'' ex_world))) = [[3, 4]] \<and>
   map obj_contentType (objects (snd (convertPdfPageToImage ex_page_env ''v1'' 1 ''https://s3/t/doc_1/deck.pdf'' ''t'' ex_world))) = [''image/jpeg'']"
  by (simp add: raster_defs ex_defs)

text \<open>
  C2 (as amended).  When the page count of a run is 5, pages 1 and 2 convert and page 3
  fails, the run returns without throwing; it has called the page conversion for pages 1,
  2 and 3 and for no later page; pages 1 and 2 have rows and no row was created for page
  3; no version's page count or \<open>hasPages\<close> flag has changed; and the percentages it
  reported are 0, 10, 20, 20, 40, 60, 60, so that the last one is 60 and not 40.
\<close>

theorem sequential_abort:
  assumes ver: "findVersion (p_documentVersionId payload) w = Some ver"
      and url: "re_presign env (dv_file ver) = Inr url" "url \<noteq> []"
      and cnt: "determinePageCount env (dv_numPages ver) = (UseCount 5, calls)"
      and p1: "\<not> collaboratorsFail (re_page env 1)"
      and p2: "\<not> collaboratorsFail (re_page env 2)"
      and p3: "collaboratorsFail (re_page env 3)"
  shows "rr_result (convertPdfToImage env payload w) = Inr None \<and>
         rr_calls (convertPdfToImage env payload w) = calls @ [ConvertPage 1, ConvertPage 2, ConvertPage 3] \<and>
         findPage 1 (p_documentVersionId payload) (rr_world (convertPdfToImage env payload w)) \<noteq> None \<and>
         findPage 2 (p_documentVersionId payload) (rr_world (convertPdfToImage env payload w)) \<noteq> None \<and>
         findPage 3 (p_documentVersionId payload) (rr_world (convertPdfToImage env payload w)) =
           findPage 3 (p_documentVersionId payload) w \<and>
         map (\<lambda>v. (dv_id v, dv_numPages v, dv_hasPages v))
             (versions (rr_world (convertPdfToImage env payload w))) =
           map (\<lambda>v. (dv_id v, dv_numPages v, dv_hasPages v)) (versions w) \<and>
         map fst (rr_progress (convertPdfToImage env payload w)) = [0, 10, 20, 20, 40, 60, 60]"
proof -
  let ?vid = "p_documentVersionId payload" and ?t = "p_teamId payload"
  let ?run = "convertPdfToImage env payload w"
  define c1 where "c1 = convertPdfPageToImage (re_page env 1) ?vid 1 url ?t w"
  define c2 where "c2 = convertPdfPageToImage (re_page env 2) ?vid 2 url ?t (snd c1)"
  define c3 where "c3 = convertPdfPageToImage (re_page env 3) ?vid 3 url ?t (snd c2)"
  have e1: "convertPdfPageToImage (re_page env 1) ?vid 1 url ?t w = (fst c1, snd c1)"
   and e2: "convertPdfPageToImage (re_page env 2) ?vid 2 url ?t (snd c1) = (fst c2, snd c2)"
   and e3: "convertPdfPageToImage (re_page env 3) ?vid 3 url ?t (snd c2) = (fst c3, snd c3)"
    by (simp_all add: c1_def c2_def c3_def)
  have r1: "\<exists>i. fst c1 = Inr i"
    using page_outcome[of ?vid w 1 "re_page env 1" url ?t] ver p1
    by (cases "fst c1") (auto simp: c1_def)
  have r2: "\<exists>i. fst c2 = Inr i"
    using page_outcome[of ?vid "snd c1" 2 "re_page env 2" url ?t] p2
    by (cases "fst c2") (auto simp: c2_def)
  have r3: "\<exists>e. fst c3 = Inl e"
    using page_outcome[of ?vid "snd c2" 3 "re_page env 3" url ?t] p3
    by (auto simp: c3_def)
  let ?s0 = "\<lparr>ls_currentPage = 0, ls_conversionWithoutError = True,
              ls_progress = [(0, ''Initializing...''), (10, ''Retrieving file...''), (20, ''Converting document...'')],
              ls_calls = calls, ls_world = w\<rparr>"
  obtain m1 m2 m3 where loop: "pageLoop env ?vid url ?t 5 0 ?s0 =
     \<lparr>ls_currentPage = 3, ls_conversionWithoutError = False,
      ls_progress = [(0, ''Initializing...''), (10, ''Retrieving file...''), (20, ''Converting document...''),
                     (20, m1), (40, m2), (60, m3)],
      ls_calls = calls @ [ConvertPage 1, ConvertPage 2, ConvertPage 3], ls_world = snd c3\<rparr>"
  proof -
    have "pageLoop env ?vid url ?t 5 0 ?s0 =
     \<lparr>ls_currentPage = 3, ls_conversionWithoutError = False,
      ls_progress = [(0, ''Initializing...''), (10, ''Retrieving file...''), (20, ''Converting document...''),
                     (20, numberToString 1 @ '' / '' @ numberToString 5 @ '' pages processed''),
                     (40, numberToString 2 @ '' / '' @ numberToString 5 @ '' pages processed''),
                     (60, numberToString 3 @ '' / '' @ numberToString 5 @ '' pages processed'')],
      ls_calls = calls @ [ConvertPage 1, ConvertPage 2, ConvertPage 3], ls_world = snd c3\<rparr>"
      using r1 r2 r3
      apply (subst pageLoop.simps)
      apply (simp add: Let_def c1_def[symmetric])
      apply (subst pageLoop.simps)
      apply (simp add: Let_def c2_def[symmetric])
      apply (subst pageLoop.simps)
      apply (simp add: Let_def c3_def[symmetric])
      apply (subst pageLoop.simps)
      apply (auto simp add: Math_round_def)
      done
    then show ?thesis using that by blast
  qed
  have run: "?run =
     \<lparr>rr_result = Inr None,
      rr_progress = [(0, ''Initializing...''), (10, ''Retrieving file...''), (20, ''Converting document...''),
                     (20, m1), (40, m2), (60, m3),
                     (60, ''Error processing page '' @ numberToString 3 @ '' of '' @ numberToString 5)],
      rr_calls = calls @ [ConvertPage 1, ConvertPage 2, ConvertPage 3], rr_world = snd c3\<rparr>"
    using ver url cnt
    by (simp add: convertPdfToImage_def getFile_def convertPages_def loop Let_def Math_round_def)
  have f1: "findPage 1 ?vid (snd c1) \<noteq> None"
    using page_findPage[OF e1, of 1 ?vid] r1 by auto
  have f12: "findPage 1 ?vid (snd c2) \<noteq> None" "findPage 2 ?vid (snd c2) \<noteq> None"
            "findPage 3 ?vid (snd c2) = findPage 3 ?vid w"
    using page_findPage[OF e2, of 1 ?vid] page_findPage[OF e2, of 2 ?vid] page_findPage[OF e2, of 3 ?vid]
          page_findPage[OF e1, of 3 ?vid] r2 f1 by auto
  have f123: "findPage 1 ?vid (snd c3) \<noteq> None" "findPage 2 ?vid (snd c3) \<noteq> None"
             "findPage 3 ?vid (snd c3) = findPage 3 ?vid w"
    using page_findPage[OF e3, of 1 ?vid] page_findPage[OF e3, of 2 ?vid] r3 f12 by auto
  have "map forgetVertical (versions (snd c3)) = map forgetVertical (versions w)"
    by (simp add: c3_def c2_def c1_def page_versions)
  then have "map (\<lambda>v. (dv_id v, dv_numPages v, dv_hasPages v)) (map forgetVertical (versions (snd c3))) =
             map (\<lambda>v. (dv_id v, dv_numPages v, dv_hasPages v)) (map forgetVertical (versions w))"
    by (simp only:)
  then have vs: "map (\<lambda>v. (dv_id v, dv_numPages v, dv_hasPages v)) (versions (snd c3)) =
             map (\<lambda>v. (dv_id v, dv_numPages v, dv_hasPages v)) (versions w)"
    by (simp add: forgetVertical_def comp_def)
  show ?thesis using f123 vs by (simp add: run)
qed

theorem sequential_abort_witness:
  "rr_result (convertPdfToImage ex_env5 ex_payload ex_world) = Inr None \<and>
   rr_calls (convertPdfToImage ex_env5 ex_payload ex_world) =
     [GetPdfPageCount, ConvertPage 1, ConvertPage 2, ConvertPage 3] \<and>
   findPage 1 ''v1'' (rr_world (convertPdfToImage ex_env5 ex_payload ex_world)) \<noteq> None \<and>
   findPage 2 ''v1'' (rr_world (convertPdfToImage ex_env5 ex_payload ex_world)) \<noteq> None \<and>
   findPage 3 ''v1'' (rr_world (convertPdfToImage ex_env5 ex_payload ex_world)) = None \<and>
   map (\<lambda>v. (dv_id v, dv_numPages v, dv_hasPages v))
     (versions (rr_world (convertPdfToImage ex_env5 ex_payload ex_world))) =
     [(''v1'', None, False), (''v2'', Some 3, True)] \<and>
   map fst (rr_progress (convertPdfToImage ex_env5 ex_payload ex_world)) = [0, 10, 20, 20, 40, 60, 60]"
proof -
  have v: "findVersion (p_documentVersionId ex_payload) ex_world = Some ex_version1"
    by (simp add: findVersion_def ex_defs)
  have u: "re_presign ex_env5 (dv_file ex_version1) = Inr ''https://s3/t/doc_1/deck.pdf''"
    by (simp add: ex_defs)
  have c: "determinePageCount ex_env5 (dv_numPages ex_version1) = (UseCount 5, [GetPdfPageCount])"
    by (simp add: determinePageCount_def probePageCount_def ex_defs)
  have p: "\<not> collaboratorsFail (re_page ex_env5 1)" "\<not> collaboratorsFail (re_page ex_env5 2)"
          "collaboratorsFail (re_page ex_env5 3)"
    by (simp_all add: collaboratorsFail_def ex_defs)
  from sequential_abort[OF v u _ c p] show ?thesis
    by (simp add: ex_defs findPage_def)
qed

theorem sequential_abort_counterexample:
  "last (map fst (rr_progress (convertPdfToImage ex_env5 ex_payload ex_world))) = 60 \<and>
   last (map fst (rr_progress (convertPdfToImage ex_env5 ex_payload ex_world))) \<noteq> 40"
  by (simp add: raster_defs ex_defs pageLoop.simps)

text \<open>
  C5 (as amended).  After a successful rasterization run that was given the version
  number of the rasterized version (not 0), for a version that belongs to the payload's
  document and whose number no other version of that document has, exactly one version of
  the document is primary: the rasterized one.  A run that is given no version number, as
  the office and CAD converters start it, demotes nothing.
\<close>

theorem primary_after_rasterization:
  assumes success: "rr_result (convertPdfToImage env payload w) = Inr (Some res)"
      and vn: "p_versionNumber payload = Some vn" "vn \<noteq> 0"
      and ver: "findVersion (p_documentVersionId payload) w = Some ver"
               "dv_documentId ver = p_documentId payload" "dv_versionNumber ver = vn"
      and others: "\<forall>v\<in>set (versions w). dv_documentId v = p_documentId payload \<and>
                      dv_id v \<noteq> p_documentVersionId payload \<longrightarrow> dv_versionNumber v \<noteq> vn"
      and ids: "distinct (map dv_id (versions w))"
  shows "map dv_id (filter (\<lambda>v. dv_documentId v = p_documentId payload \<and> dv_isPrimary v)
           (versions (rr_world (convertPdfToImage env payload w)))) = [p_documentVersionId payload]"
proof -
  let ?vid = "p_documentVersionId payload" and ?d = "p_documentId payload"
  from convertPdfToImage_success[OF success] obtain url n prog calls where
    cp: "convertPdfToImage env payload w = convertPages env payload url n prog calls w" by blast
  with success have "rr_result (convertPages env payload url n prog calls w) = Inr (Some res)" by simp
  from convertPages_success[OF this] obtain wL progL callsL where
    fr: "map forgetVertical (versions wL) = map forgetVertical (versions w)" and
    ep: "convertPages env payload url n prog calls w = enablePages env payload n progL callsL wL" by blast
  from success cp ep have "rr_result (enablePages env payload n progL callsL wL) = Inr (Some res)" by simp
  from enablePages_success[OF this] obtain w1 where
    up: "updateVersion ?vid (\<lambda>v. v\<lparr>dv_numPages := Some n, dv_hasPages := True, dv_isPrimary := True\<rparr>) wL = Inr w1" and
    fin: "rr_world (enablePages env payload n progL callsL wL) = demoteOtherVersions payload w1" by blast
  have idsL: "map dv_id (versions wL) = map dv_id (versions w)" using fr by (rule forget_ids)
  from ver(1) ids have uniq: "\<forall>v\<in>set (versions w). dv_id v = ?vid \<longrightarrow> v = ver"
    unfolding findVersion_def by (rule find_distinct_id[rotated])
  have a1: "\<forall>v\<in>set (versions wL). dv_id v = ?vid \<longrightarrow> dv_documentId v = ?d \<and> dv_versionNumber v = vn"
    by (rule forget_transfer[OF fr]) (use uniq ver in auto)
  have a2: "\<forall>v\<in>set (versions wL). dv_documentId v = ?d \<and> dv_id v \<noteq> ?vid \<longrightarrow> dv_versionNumber v \<noteq> vn"
    by (rule forget_transfer[OF fr]) (use others in auto)
  have mem: "?vid \<in> set (map dv_id (versions w))"
    using ver(1) by (force simp: findVersion_def dest!: find_SomeD)
  have "versions (rr_world (convertPdfToImage env payload w)) =
          map (\<lambda>v. if dv_documentId v = ?d \<and> dv_versionNumber v \<noteq> vn then v\<lparr>dv_isPrimary := False\<rparr> else v)
             (map (\<lambda>v. if dv_id v = ?vid
                        then v\<lparr>dv_numPages := Some n, dv_hasPages := True, dv_isPrimary := True\<rparr> else v)
                (versions wL))"
    using up by (auto simp add: cp ep fin demoteOtherVersions_def vn updateManyVersions_def updateVersion_def
        split: option.splits)
  then show ?thesis
    by (simp only: primary_ids[OF a1 a2] idsL filter_eq_single[OF ids mem])
qed

theorem primary_after_rasterization_witness:
  "map dv_id (filter (\<lambda>v. dv_documentId v = ''d'' \<and> dv_isPrimary v) (versions ex_world)) = [''v2''] \<and>
   map dv_id (filter (\<lambda>v. dv_documentId v = ''d'' \<and> dv_isPrimary v)
      (versions (rr_world (convertPdfToImage ex_env ex_payload_numbered ex_world)))) = [''v1'']"
proof -
  have s: "rr_result (convertPdfToImage ex_env ex_payload_numbered ex_world) =
      Inr (Some \<lparr>rs_success = True, rs_message = ''Successfully converted PDF to images'', rs_totalPages = 1\<rparr>)"
    by (simp add: raster_defs ex_defs pageLoop.simps)
  have v: "findVersion (p_documentVersionId ex_payload_numbered) ex_world = Some ex_version1"
    by (simp add: findVersion_def ex_defs)
  have "map dv_id (filter (\<lambda>v. dv_documentId v = p_documentId ex_payload_numbered \<and> dv_isPrimary v)
           (versions (rr_world (convertPdfToImage ex_env ex_payload_numbered ex_world)))) =
        [p_documentVersionId ex_payload_numbered]"
    by (rule primary_after_rasterization[OF s _ _ v, of 1]) (simp_all add: ex_defs)
  then show ?thesis by (simp add: ex_defs)
qed

theorem primary_unnumbered_counterexample:
  "rr_result (convertPdfToImage ex_env ex_payload ex_world) =
      Inr (Some \<lparr>rs_success = True, rs_message = ''Successfully converted PDF to images'', rs_totalPages = 1\<rparr>) \<and>
   map dv_id (filter (\<lambda>v. dv_documentId v = ''d'' \<and> dv_isPrimary v)
      (versions (rr_world (convertPdfToImage ex_env ex_payload ex_world)))) = [''v1'', ''v2'']"
  by (simp add: raster_defs ex_defs pageLoop.simps)

text \<open>
  C6.  Converting a page whose (version, page number) pair already has a page row leaves
  the table of page rows as it is, the row itself unchanged; the call returns that row's
  id unless it throws, and it returns it whenever the collaborators do not fail.  When the
  row was created by a first conversion of the page, the second conversion returns the id
  the first returned, and the pair has exactly one row afterwards.
\<close>

theorem page_rasterization_idempotent:
  assumes existing: "findPage n vid w = Some p"
      and run: "convertPdfPageToImage pe vid n url t w = (r, w')"
  shows "pages w' = pages w \<and> findPage n vid w' = Some p \<and>
         (r = Inr (dp_id p) \<or> (\<exists>e. r = Inl e)) \<and>
         ((findVersion vid w \<noteq> None \<or> n \<noteq> 1) \<and> \<not> collaboratorsFail pe \<longrightarrow> r = Inr (dp_id p)) \<and>
         (\<forall>pe0 url0 t0 w0 i.
            convertPdfPageToImage pe0 vid n url0 t0 w0 = (Inr i, w) \<longrightarrow>
              dp_id p = i \<and>
              (findPage n vid w0 = None \<longrightarrow>
                 filter (\<lambda>q. dp_pageNumber q = n \<and> dp_versionId q = vid) (pages w') = [p]))"
proof -
  from page_pages[OF run] existing have pg: "pages w' = pages w" and res: "r = Inr (dp_id p) \<or> (\<exists>e. r = Inl e)"
    by (cases r; auto)+
  from pg existing have fp: "findPage n vid w' = Some p" by (simp add: findPage_def)
  have ok: "r = Inr (dp_id p)" if "findVersion vid w \<noteq> None \<or> n \<noteq> 1" "\<not> collaboratorsFail pe"
    using page_outcome[OF that(1), of pe url t] that(2) res run by auto
  have two: "dp_id p = i \<and>
              (findPage n vid w0 = None \<longrightarrow>
                 filter (\<lambda>q. dp_pageNumber q = n \<and> dp_versionId q = vid) (pages w') = [p])"
    if first: "convertPdfPageToImage pe0 vid n url0 t0 w0 = (Inr i, w)" for pe0 url0 t0 w0 i
  proof -
    from page_findPage[OF first, of n vid] existing have id: "dp_id p = i" by auto
    have "filter (\<lambda>q. dp_pageNumber q = n \<and> dp_versionId q = vid) (pages w') = [p]"
      if none: "findPage n vid w0 = None"
    proof -
      from page_pages[OF first] none obtain p0 where
        p0: "pages w = pages w0 @ [p0]" "dp_pageNumber p0 = n" "dp_versionId p0 = vid"
        by auto
      from none have e: "filter (\<lambda>q. dp_pageNumber q = n \<and> dp_versionId q = vid) (pages w0) = []"
        unfolding findPage_def by (rule find_None_filter)
      from none p0 have "findPage n vid w = Some p0"
        by (simp add: findPage_def find_snoc)
      with existing have "p = p0" by simp
      with p0 e pg show ?thesis by simp
    qed
    with id show ?thesis by simp
  qed
  from pg fp res ok two show ?thesis by blast
qed

theorem page_rasterization_idempotent_witness:
  "\<exists>p. findPage 1 ''v1'' (snd (convertPdfPageToImage ex_page_env ''v1'' 1 ''u'' ''t'' ex_world)) = Some p \<and>
     convertPdfPageToImage ex_page_env ''v1'' 1 ''u'' ''t''
       (snd (convertPdfPageToImage ex_page_env ''v1'' 1 ''u'' ''t'' ex_world)) =
     (Inr (dp_id p),
      snd (convertPdfPageToImage ex_page_env ''v1'' 1 ''u'' ''t''
             (snd (convertPdfPageToImage ex_page_env ''v1'' 1 ''u'' ''t'' ex_world)))) \<and>
     pages (snd (convertPdfPageToImage ex_page_env ''v1'' 1 ''u'' ''t''
             (snd (convertPdfPageToImage ex_page_env ''v1'' 1 ''u'' ''t'' ex_world)))) = [p]"
proof -
  let ?w1 = "snd (convertPdfPageToImage ex_page_env ''v1'' 1 ''u'' ''t'' ex_world)"
  let ?c2 = "convertPdfPageToImage ex_page_env ''v1'' 1 ''u'' ''t'' ?w1"
  have first: "convertPdfPageToImage ex_page_env ''v1'' 1 ''u'' ''t'' ex_world = (Inr ''page_a'', ?w1)"
    by (simp add: raster_defs ex_defs)
  from page_pages[OF first] obtain p where p: "pages ?w1 = [p]" "dp_pageNumber p = 1" "dp_versionId p = ''v1''"
    by (auto simp add: findPage_def ex_defs)
  then have existing: "findPage 1 ''v1'' ?w1 = Some p" by (simp add: findPage_def)
  have second: "?c2 = (fst ?c2, snd ?c2)" by simp
  have ok: "\<not> collaboratorsFail ex_page_env" by (simp add: collaboratorsFail_def ex_defs)
  have ver: "findVersion ''v1'' ?w1 \<noteq> None"
    using findVersion_forget[OF page_versions, of "''v1''" ex_page_env "''v1''" 1 "''u''" "''t''" ex_world]
    by (auto simp add: findVersion_def ex_defs)
  from page_rasterization_idempotent[OF existing second] ok ver p(1)
  have "pages (snd ?c2) = [p] \<and> fst ?c2 = Inr (dp_id p)" by simp
  with existing show ?thesis by (metis prod.collapse)
qed

text \<open>
  C10 (as amended).  A run that gets past retrieving the file asks the PDF for its page
  count exactly when the stored count is null, 0 or 1.  When it asks and the PDF answers
  \<open>k \<ge> 1\<close>, the count used is \<open>k\<close>: the pages converted are pages 1 to \<open>j\<close> in order
  for some \<open>j \<le> k\<close>; a run that returns success has converted exactly the pages 1 to
  \<open>k\<close>, returns \<open>totalPages = k\<close> and has stored \<open>k\<close> as the version's page count; and the
  run does return success when no collaborator of the pages 1 to \<open>k\<close> fails and the
  revalidation works.  When it asks and the probe throws or answers less than 1, no page
  is converted and nothing is stored.  Every other stored count \<open>n\<close>, 2 or more but also
  a negative one, is used as it is without asking: the same holds with \<open>n\<close> for \<open>k\<close> and
  no call of the probe.
\<close>

theorem page_count_reprobed:
  assumes ver: "findVersion (p_documentVersionId payload) w = Some ver"
      and url: "re_presign env (dv_file ver) = Inr url" "url \<noteq> []"
  shows "(GetPdfPageCount \<in> set (rr_calls (convertPdfToImage env payload w)) \<longleftrightarrow>
            dv_numPages ver = None \<or> dv_numPages ver = Some 0 \<or> dv_numPages ver = Some 1) \<and>
         ((dv_numPages ver = None \<or> dv_numPages ver = Some 0 \<or> dv_numPages ver = Some 1) \<and>
          re_pageCount env = Inr k \<and> 1 \<le> k \<longrightarrow>
            (\<exists>j. 0 \<le> j \<and> j \<le> k \<and>
                 rr_calls (convertPdfToImage env payload w) = GetPdfPageCount # map ConvertPage [1..j]) \<and>
            (\<forall>res. rr_result (convertPdfToImage env payload w) = Inr (Some res) \<longrightarrow>
                 rs_totalPages res = k \<and>
                 rr_calls (convertPdfToImage env payload w) = GetPdfPageCount # map ConvertPage [1..k] \<and>
                 map_option dv_numPages
                   (findVersion (p_documentVersionId payload) (rr_world (convertPdfToImage env payload w))) =
                   Some (Some k)) \<and>
            ((\<forall>p. 1 \<le> p \<and> p \<le> k \<longrightarrow> \<not> collaboratorsFail (re_page env p)) \<and>
             re_revalidate env = Inr () \<longrightarrow>
               rr_result (convertPdfToImage env payload w) =
                 Inr (Some \<lparr>rs_success = True, rs_message = ''Successfully converted PDF to images'',
                            rs_totalPages = k\<rparr>))) \<and>
         ((dv_numPages ver = None \<or> dv_numPages ver = Some 0 \<or> dv_numPages ver = Some 1) \<and>
          (case re_pageCount env of Inl _ \<Rightarrow> True | Inr c \<Rightarrow> c < 1) \<longrightarrow>
            rr_calls (convertPdfToImage env payload w) = [GetPdfPageCount] \<and>
            rr_world (convertPdfToImage env payload w) = w \<and>
            (\<forall>res. rr_result (convertPdfToImage env payload w) \<noteq> Inr (Some res))) \<and>
         (dv_numPages ver = Some n \<and> n \<noteq> 0 \<and> n \<noteq> 1 \<longrightarrow>
            (\<exists>j. 0 \<le> j \<and> j \<le> max 0 n \<and>
                 rr_calls (convertPdfToImage env payload w) = map ConvertPage [1..j]) \<and>
            (\<forall>res. rr_result (convertPdfToImage env payload w) = Inr (Some res) \<longrightarrow>
                 rs_totalPages res = n \<and>
                 rr_calls (convertPdfToImage env payload w) = map ConvertPage [1..n] \<and>
                 map_option dv_numPages
                   (findVersion (p_documentVersionId payload) (rr_world (convertPdfToImage env payload w))) =
                   Some (Some n)) \<and>
            ((\<forall>p. 1 \<le> p \<and> p \<le> n \<longrightarrow> \<not> collaboratorsFail (re_page env p)) \<and>
             re_revalidate env = Inr () \<longrightarrow>
               rr_result (convertPdfToImage env payload w) =
                 Inr (Some \<lparr>rs_success = True, rs_message = ''Successfully converted PDF to images'',
                            rs_totalPages = n\<rparr>)))"
    (is "?A \<and> (?hb \<longrightarrow> ?B) \<and> (?hc \<longrightarrow> ?C) \<and> (?hd \<longrightarrow> ?D)")
proof -
  let ?prog = "[(0, ''Initializing...''), (10, ''Retrieving file...'')]"
  let ?run = "convertPdfToImage env payload w"
  let ?probing = "dv_numPages ver = None \<or> dv_numPages ver = Some 0 \<or> dv_numPages ver = Some 1"
  have run: "?run =
      (case determinePageCount env (dv_numPages ver) of
         (ProbeThrew, calls) \<Rightarrow>
           \<lparr>rr_result = Inl (Thrown ''Failed to get number of pages''),
            rr_progress = ?prog, rr_calls = calls, rr_world = w\<rparr>
       | (NoPages, calls) \<Rightarrow>
           \<lparr>rr_result = Inr None, rr_progress = ?prog @ [(0, ''Failed to get number of pages'')],
            rr_calls = calls, rr_world = w\<rparr>
       | (UseCount numPages, calls) \<Rightarrow> convertPages env payload url numPages ?prog calls w)"
    using ver url
    by (simp add: convertPdfToImage_def getFile_def Let_def split: prod.splits page_count.splits)
  have v: "findVersion (p_documentVersionId payload) w \<noteq> None" using ver by simp
  have probe: "\<exists>pc. probePageCount env = (pc, [GetPdfPageCount])"
    by (simp add: probePageCount_def split: sum.splits)
  have A: "GetPdfPageCount \<in> set (rr_calls ?run) \<longleftrightarrow> ?probing"
  proof (cases ?probing)
    case True
    then have d: "determinePageCount env (dv_numPages ver) = probePageCount env"
      by (auto simp add: determinePageCount_def)
    from probe obtain pc where pc: "probePageCount env = (pc, [GetPdfPageCount])" by blast
    have "GetPdfPageCount \<in> set (rr_calls ?run)"
      by (cases pc) (auto simp add: run d pc convertPages_probed)
    with True show ?thesis by simp
  next
    case False
    then obtain m where m: "dv_numPages ver = Some m" "m \<noteq> 0" "m \<noteq> 1"
      by (cases "dv_numPages ver") auto
    then have d: "determinePageCount env (dv_numPages ver) = (UseCount m, [])"
      by (simp add: determinePageCount_def)
    have "GetPdfPageCount \<notin> set (rr_calls ?run)"
      by (simp add: run d convertPages_probed)
    with False show ?thesis by simp
  qed
  have B: ?B
    if p: ?probing and k: "re_pageCount env = Inr k" "1 \<le> k"
  proof -
    have r: "?run = convertPages env payload url k ?prog [GetPdfPageCount] w"
      using p k by (auto simp add: run determinePageCount_def probePageCount_def)
    have m: "max 0 k = k" using k(2) by simp
    from convertPages_outcome[OF v, of k env url ?prog "[GetPdfPageCount]"]
    show ?thesis unfolding r m by simp
  qed
  have C: ?C
    if p: ?probing and f: "case re_pageCount env of Inl _ \<Rightarrow> True | Inr c \<Rightarrow> c < 1"
  proof -
    have d: "determinePageCount env (dv_numPages ver) = probePageCount env"
      using p by (auto simp add: determinePageCount_def)
    show ?thesis
      using f by (cases "re_pageCount env") (simp_all add: run d probePageCount_def)
  qed
  have D: ?D
    if n: "dv_numPages ver = Some n" "n \<noteq> 0" "n \<noteq> 1"
  proof -
    have r: "?run = convertPages env payload url n ?prog [] w"
      using n by (simp add: run determinePageCount_def)
    from convertPages_outcome[OF v, of n env url ?prog "[]"]
    show ?thesis unfolding r by simp
  qed
  have b: "?hb \<longrightarrow> ?B"
  proof (rule impI)
    assume h: ?hb
    show ?B by (rule B[OF conjunct1[OF h] conjunct1[OF conjunct2[OF h]] conjunct2[OF conjunct2[OF h]]])
  qed
  have c: "?hc \<longrightarrow> ?C"
  proof (rule impI)
    assume h: ?hc
    show ?C by (rule C[OF conjunct1[OF h] conjunct2[OF h]])
  qed
  have d: "?hd \<longrightarrow> ?D"
  proof (rule impI)
    assume h: ?hd
    show ?D by (rule D[OF conjunct1[OF h] conjunct1[OF conjunct2[OF h]] conjunct2[OF conjunct2[OF h]]])
  qed
  show ?thesis by (rule conjI[OF A conjI[OF b conjI[OF c d]]])
qed

theorem page_count_reprobed_witness:
  "GetPdfPageCount \<in> set (rr_calls (convertPdfToImage ex_env2 ex_payload ex_world_one)) \<and>
   rr_result (convertPdfToImage ex_env2 ex_payload ex_world_one) =
     Inr (Some \<lparr>rs_success = True, rs_message = ''Successfully converted PDF to images'',
                rs_totalPages = 2\<rparr>) \<and>
   rr_calls (convertPdfToImage ex_env2 ex_payload ex_world_one) =
     [GetPdfPageCount, ConvertPage 1, ConvertPage 2] \<and>
   map_option dv_numPages (findVersion ''v1'' (rr_world (convertPdfToImage ex_env2 ex_payload ex_world_one))) =
     Some (Some 2) \<and>
   rr_calls (convertPdfToImage (ex_env\<lparr>re_pageCount := Inr 0\<rparr>) ex_payload ex_world_one) =
     [GetPdfPageCount] \<and>
   rr_world (convertPdfToImage (ex_env\<lparr>re_pageCount := Inr 0\<rparr>) ex_payload ex_world_one) = ex_world_one \<and>
   GetPdfPageCount \<notin> set (rr_calls (convertPdfToImage ex_env2 (ex_payload\<lparr>p_documentVersionId := ''v2''\<rparr>) ex_world_one)) \<and>
   rr_result (convertPdfToImage ex_env2 (ex_payload\<lparr>p_documentVersionId := ''v2''\<rparr>) ex_world_one) =
     Inr (Some \<lparr>rs_success = True, rs_message = ''Successfully converted PDF to images'',
                rs_totalPages = 3\<rparr>) \<and>
   rr_calls (convertPdfToImage ex_env2 (ex_payload\<lparr>p_documentVersionId := ''v2''\<rparr>) ex_world_one) =
     [ConvertPage 1, ConvertPage 2, ConvertPage 3] \<and>
   map_option dv_numPages
     (findVersion ''v2'' (rr_world (convertPdfToImage ex_env2 (ex_payload\<lparr>p_documentVersionId := ''v2''\<rparr>) ex_world_one))) =
     Some (Some 3)"
proof -
  let ?p2 = "ex_payload\<lparr>p_documentVersionId := ''v2''\<rparr>"
  let ?e0 = "ex_env\<lparr>re_pageCount := Inr 0\<rparr>"
  have v1: "findVersion (p_documentVersionId ex_payload) ex_world_one = Some (ex_version1\<lparr>dv_numPages := Some 1\<rparr>)"
    by (simp add: findVersion_def ex_defs)
  have u1: "re_presign ex_env2 (dv_file (ex_version1\<lparr>dv_numPages := Some 1\<rparr>)) = Inr ''https://s3/t/doc_1/deck.pdf''"
           "re_presign ?e0 (dv_file (ex_version1\<lparr>dv_numPages := Some 1\<rparr>)) = Inr ''https://s3/t/doc_1/deck.pdf''"
    by (simp_all add: ex_defs)
  have v2: "findVersion (p_documentVersionId ?p2) ex_world_one = Some ex_version2"
    by (simp add: findVersion_def ex_defs)
  have u2: "re_presign ex_env2 (dv_file ex_version2) = Inr ''https://s3/t/doc_1/deck2.pdf''"
    by (simp add: ex_defs)
  have ne: "''https://s3/t/doc_1/deck.pdf'' \<noteq> []" "''https://s3/t/doc_1/deck2.pdf'' \<noteq> []"
    by simp_all
  have k: "re_pageCount ex_env2 = Inr 2" "re_pageCount ?e0 = Inr 0" by (simp_all add: ex_defs)
  have n1: "dv_numPages (ex_version1\<lparr>dv_numPages := Some 1\<rparr>) = Some 1" by simp
  have n2: "dv_numPages ex_version2 = Some 3" by (simp add: ex_defs)
  have ok: "\<not> collaboratorsFail (re_page ex_env2 p)" for p
    by (simp add: collaboratorsFail_def ex_defs)
  have rv: "re_revalidate ex_env2 = Inr ()" by (simp add: ex_defs)
  have ids: "p_documentVersionId ex_payload = ''v1''" "p_documentVersionId ?p2 = ''v2''"
    by (simp_all add: ex_defs)
  have up: "[1..2] = [1, 2::int]" "[1..3] = [1, 2, 3::int]" by (simp_all add: upto_rec1)
  note a = page_count_reprobed[OF v1 u1(1) ne(1), of 2 0]
  note b = page_count_reprobed[OF v1 u1(2) ne(1), of 0 0]
  note c = page_count_reprobed[OF v2 u2 ne(2), of 0 3]
  from a n1 have a1: "GetPdfPageCount \<in> set (rr_calls (convertPdfToImage ex_env2 ex_payload ex_world_one))"
    by simp
  from a k n1 ok rv have a2: "rr_result (convertPdfToImage ex_env2 ex_payload ex_world_one) =
     Inr (Some \<lparr>rs_success = True, rs_message = ''Successfully converted PDF to images'',
                rs_totalPages = 2\<rparr>)"
    by simp
  from a a2 k n1 have a3: "rr_calls (convertPdfToImage ex_env2 ex_payload ex_world_one) =
     [GetPdfPageCount, ConvertPage 1, ConvertPage 2]"
    and a4: "map_option dv_numPages (findVersion ''v1'' (rr_world (convertPdfToImage ex_env2 ex_payload ex_world_one))) =
     Some (Some 2)"
    by (simp_all add: ids up)
  from b k n1 have b1: "rr_calls (convertPdfToImage ?e0 ex_payload ex_world_one) = [GetPdfPageCount]"
    and b2: "rr_world (convertPdfToImage ?e0 ex_payload ex_world_one) = ex_world_one"
    by simp_all
  from c n2 have c1: "GetPdfPageCount \<notin> set (rr_calls (convertPdfToImage ex_env2 ?p2 ex_world_one))"
    by (simp del: set_map)
  from c n2 ok rv have c2: "rr_result (convertPdfToImage ex_env2 ?p2 ex_world_one) =
     Inr (Some \<lparr>rs_success = True, rs_message = ''Successfully converted PDF to images'',
                rs_totalPages = 3\<rparr>)"
    by simp
  from c c2 n2 have c3: "rr_calls (convertPdfToImage ex_env2 ?p2 ex_world_one) =
     [ConvertPage 1, ConvertPage 2, ConvertPage 3]"
    and c4: "map_option dv_numPages (findVersion ''v2'' (rr_world (convertPdfToImage ex_env2 ?p2 ex_world_one))) =
     Some (Some 3)"
    by (simp_all add: ids up)
  show ?thesis
    by (rule conjI[OF a1 conjI[OF a2 conjI[OF a3 conjI[OF a4 conjI[OF b1 conjI[OF b2 conjI[OF c1 conjI[OF c2 conjI[OF c3 c4]]]]]]]]])
qed

text \<open>
  A stored count of \<open>-1\<close> is used without asking the PDF, which would have answered 2: no
  page is converted and the run returns success with \<open>totalPages = -1\<close>.
\<close>

theorem page_count_negative_counterexample:
  "map_option dv_numPages (findVersion ''v1'' ex_world_negative) = Some (Some (- 1)) \<and>
   \<not> (2::int) \<le> - 1 \<and>
   re_pageCount ex_env2 = Inr 2 \<and>
   rr_calls (convertPdfToImage ex_env2 ex_payload ex_world_negative) = [] \<and>
   GetPdfPageCount \<notin> set (rr_calls (convertPdfToImage ex_env2 ex_payload ex_world_negative)) \<and>
   rr_result (convertPdfToImage ex_env2 ex_payload ex_world_negative) =
     Inr (Some \<lparr>rs_success = True, rs_message = ''Successfully converted PDF to images'',
                rs_totalPages = - 1\<rparr>)"
  by (simp add: raster_defs ex_defs pageLoop.simps)

section \<open>The claims about the retry policy\<close>

lemma retryLoop_transient_step:
  assumes "rt_retryCount s < maxRetries" and "transient (fetch (rt_attempts s))"
  shows "retryLoop fetch s =
     (case fetch (rt_attempts s) of
        FetchThrew err \<Rightarrow>
          if rt_retryCount s + 1 \<ge> maxRetries
          then (Some err, s\<lparr>rt_retryCount := rt_retryCount s + 1, rt_attempts := rt_attempts s + 1\<rparr>)
          else retryLoop fetch (s\<lparr>rt_retryCount := rt_retryCount s + 1, rt_attempts := rt_attempts s + 1,
                                  rt_delays := rt_delays s @ [backoffDelay (rt_retryCount s + 1)]\<rparr>)
      | Responded r \<Rightarrow>
          retryLoop fetch (s\<lparr>rt_conversionResponse := Some r, rt_attempts := rt_attempts s + 1,
                             rt_retryCount := rt_retryCount s + 1,
                             rt_delays := rt_delays s @ [backoffDelay (rt_retryCount s + 1)]\<rparr>))"
  using assms
  by (subst retryLoop.simps)
     (auto simp add: transient_def response_ok_def Let_def split: fetch_outcome.splits)

lemma retryLoop_done: "\<not> rt_retryCount s < maxRetries \<Longrightarrow> retryLoop fetch s = (None, s)"
  by (subst retryLoop.simps) simp

lemma backoff_values:
  "backoffDelay (Suc 0) = 2000" "backoffDelay (Suc (Suc 0)) = 4000" "backoffDelay (Suc (Suc (Suc 0))) = 8000"
  "backoffDelay 2 = 4000" "backoffDelay 3 = 8000"
  by (simp_all add: backoffDelay_def)

lemma backoff_cap: "backoffDelay k \<le> 30000"
  by (simp add: backoffDelay_def)

lemma retryLoop_three_transient:
  assumes t0: "transient (fetch 0)" and t1: "transient (fetch 1)" and t2: "transient (fetch 2)"
  shows "\<exists>e s. retryLoop fetch initialRetryState = (e, s) \<and> rt_attempts s = 3 \<and>
           take 2 (rt_delays s) = [2000, 4000] \<and> (\<forall>d\<in>set (rt_delays s). d \<le> 30000) \<and>
           ((\<exists>err. e = Some err \<and> fetch 2 = FetchThrew err \<and> rt_delays s = [2000, 4000]) \<or>
            (\<exists>r. e = None \<and> fetch 2 = Responded r \<and> rt_conversionResponse s = Some r))"
proof -
  let ?s1 = "initialRetryState\<lparr>rt_retryCount := 1, rt_attempts := 1, rt_delays := [2000]\<rparr>"
  have s1: "\<exists>resp. retryLoop fetch initialRetryState =
              retryLoop fetch \<lparr>rt_retryCount = 1, rt_conversionResponse = resp, rt_attempts = 1, rt_delays = [2000]\<rparr>"
    using t0
    by (subst retryLoop_transient_step)
       (auto simp add: initialRetryState_def maxRetries_def backoff_values split: fetch_outcome.splits)
  then obtain resp1 where r1: "retryLoop fetch initialRetryState =
              retryLoop fetch \<lparr>rt_retryCount = 1, rt_conversionResponse = resp1, rt_attempts = 1, rt_delays = [2000]\<rparr>"
    by blast
  have "\<exists>resp. retryLoop fetch \<lparr>rt_retryCount = 1, rt_conversionResponse = resp1, rt_attempts = 1, rt_delays = [2000]\<rparr> =
              retryLoop fetch \<lparr>rt_retryCount = 2, rt_conversionResponse = resp, rt_attempts = 2, rt_delays = [2000, 4000]\<rparr>"
    using t1
    by (subst retryLoop_transient_step)
       (auto simp add: maxRetries_def backoff_values numeral_2_eq_2 split: fetch_outcome.splits)
  then obtain resp2 where r2: "retryLoop fetch initialRetryState =
              retryLoop fetch \<lparr>rt_retryCount = 2, rt_conversionResponse = resp2, rt_attempts = 2, rt_delays = [2000, 4000]\<rparr>"
    using r1 by auto
  show ?thesis
  proof (cases "fetch 2")
    case (FetchThrew err)
    then show ?thesis
      using t2 unfolding r2
      by (subst retryLoop_transient_step) (auto simp add: maxRetries_def)
  next
    case (Responded r)
    then show ?thesis
      using t2 unfolding r2
      by (subst retryLoop_transient_step)
         (auto simp add: maxRetries_def retryLoop_done backoff_values)
  qed
qed

lemma submit_transient:
  assumes t0: "transient (fetch 0)" and t1: "transient (fetch 1)" and t2: "transient (fetch 2)"
  shows "\<exists>e rep s. submitConversion fetch = (Inl e, rep, s) \<and> rt_attempts s = 3 \<and>
           take 2 (rt_delays s) = [2000, 4000] \<and> (\<forall>d\<in>set (rt_delays s). d \<le> 30000)"
proof -
  from retryLoop_three_transient[OF assms] obtain e s where
    loop: "retryLoop fetch initialRetryState = (e, s)" and
    facts: "rt_attempts s = 3" "take 2 (rt_delays s) = [2000, 4000]" "\<forall>d\<in>set (rt_delays s). d \<le> 30000" and
    last: "(\<exists>err. e = Some err \<and> fetch 2 = FetchThrew err \<and> rt_delays s = [2000, 4000]) \<or>
           (\<exists>r. e = None \<and> fetch 2 = Responded r \<and> rt_conversionResponse s = Some r)"
    by blast
  from last show ?thesis
  proof
    assume "\<exists>err. e = Some err \<and> fetch 2 = FetchThrew err \<and> rt_delays s = [2000, 4000]"
    then show ?thesis using loop facts by (auto simp add: submitConversion_def)
  next
    assume "\<exists>r. e = None \<and> fetch 2 = Responded r \<and> rt_conversionResponse s = Some r"
    then obtain r where r: "e = None" "fetch 2 = Responded r" "rt_conversionResponse s = Some r" by blast
    with t2 have "\<not> response_ok r" by (simp add: transient_def response_ok_def)
    then show ?thesis using loop facts r
      by (cases "json_body r") (auto simp add: submitConversion_def)
  qed
qed

lemma convertViaService_failed_submit:
  assumes reach: "reachesSubmission env payload w"
      and sub: "submitConversion (ce_fetch env) = (Inl e, rep, s)"
  shows "cr_result (convertViaService env payload al sv pp msg w) = Inl e \<and>
         cr_retry (convertViaService env payload al sv pp msg w) = Some s \<and>
         cr_raster (convertViaService env payload al sv pp msg w) = None \<and>
         cr_world (convertViaService env payload al sv pp msg w) = w \<and>
         cr_progress (convertViaService env payload al sv pp msg w) =
           [(0, ''Initializing...''), (10, ''Retrieving file...''), (20, ''Converting document...'')] @ rep"
  using reach sub
  by (auto simp add: reachesSubmission_def convertViaService_def Let_def
        split: option.splits prod.splits sum.splits)

text \<open>
  C4 (as amended).  A CAD or office conversion that gets as far as posting to the
  conversion service and meets only transient failures (network errors or statuses from
  500 to 599) makes exactly 3 attempts.  It waits \<open>min (1000 * 2 ^ k) 30000\<close>
  milliseconds before the \<open>k\<close>-th retry, that is 2000 before the second attempt and
  4000 before the third (not 1000 and 2000); no wait exceeds 30000.  After the third
  failed attempt it makes no other and throws, leaving the world as it was.
\<close>

theorem transient_failures_three_attempts:
  assumes "transient (ce_fetch env 0)" and "transient (ce_fetch env 1)" and "transient (ce_fetch env 2)"
      and reach: "reachesSubmission env payload w"
  shows "\<forall>run \<in> {convertCadToPdf env payload w, convertOfficeToPdf env payload w}.
           \<exists>e s. cr_result run = Inl e \<and> cr_retry run = Some s \<and> rt_attempts s = 3 \<and>
                 take 2 (rt_delays s) = [backoffDelay 1, backoffDelay 2] \<and>
                 take 2 (rt_delays s) = [2000, 4000] \<and>
                 (\<forall>d\<in>set (rt_delays s). d \<le> 30000) \<and>
                 cr_world run = w"
proof -
  from submit_transient[OF assms(1-3)] obtain e rep s where
    sub: "submitConversion (ce_fetch env) = (Inl e, rep, s)" and
    facts: "rt_attempts s = 3" "take 2 (rt_delays s) = [2000, 4000]" "\<forall>d\<in>set (rt_delays s). d \<le> 30000"
    by blast
  have b: "[backoffDelay 1, backoffDelay 2] = [2000, 4000]" by (simp add: backoffDelay_def)
  show ?thesis
    using convertViaService_failed_submit[OF reach sub] facts b
    by (simp add: convertCadToPdf_def convertOfficeToPdf_def)
qed

theorem transient_failures_three_attempts_witness:
  "(\<exists>e s. cr_result (convertCadToPdf (ex_convert_env ex_unavailable) ex_payload ex_world) = Inl e \<and>
          cr_retry (convertCadToPdf (ex_convert_env ex_unavailable) ex_payload ex_world) = Some s \<and>
          rt_attempts s = 3 \<and> take 2 (rt_delays s) = [2000, 4000]) \<and>
   (\<exists>e s. cr_result (convertOfficeToPdf (ex_convert_env ex_network_down) ex_payload ex_world) = Inl e \<and>
          cr_retry (convertOfficeToPdf (ex_convert_env ex_network_down) ex_payload ex_world) = Some s \<and>
          rt_attempts s = 3 \<and> take 2 (rt_delays s) = [2000, 4000])"
proof -
  have r: "reachesSubmission (ex_convert_env f) ex_payload ex_world" for f
    by (simp add: reachesSubmission_def findDocumentVersion_def falsy_def getFile_def ex_defs)
  have t1: "transient (ce_fetch (ex_convert_env ex_unavailable) k)" for k
    by (simp add: transient_def ex_defs)
  have t2: "transient (ce_fetch (ex_convert_env ex_network_down) k)" for k
    by (simp add: transient_def ex_defs)
  from transient_failures_three_attempts[OF t1 t1 t1 r] transient_failures_three_attempts[OF t2 t2 t2 r]
  show ?thesis by blast
qed

theorem backoff_total_counterexample:
  "rt_attempts (snd (snd (submitConversion ex_network_down))) = 3 \<and>
   rt_delays (snd (snd (submitConversion ex_network_down))) = [2000, 4000] \<and>
   sum_list (rt_delays (snd (snd (submitConversion ex_network_down)))) \<noteq> 1000 + 2000 \<and>
   rt_attempts (snd (snd (submitConversion ex_unavailable))) = 3 \<and>
   rt_delays (snd (snd (submitConversion ex_unavailable))) = [2000, 4000, 8000]"
  by (simp add: submitConversion_def initialRetryState_def retryLoop.simps maxRetries_def
        backoffDelay_def response_ok_def ex_defs Let_def)







section \<open>The claims about the video optimizer\<close>

lemma encodeAndReplace_encoded: "vr_encoded (encodeAndReplace env payload m prog w)"
  by (simp add: encodeAndReplace_def Let_def split: sum.splits)

lemma optimizeVideo_at_guard:
  assumes "reachesGuard env payload w m"
  shows "optimizeVideo env payload w =
           persistDurationAndGuard env payload m
             [(0, ''Initializing...''), (10, ''Fetching video file...''), (20, ''Downloading video...''),
              (30, ''Analyzing video...'')] w"
  using assms
  by (auto simp add: reachesGuard_def optimizeVideo_def Let_def split: sum.splits)

lemma persistDuration_world:
  assumes "findVersion (vp_documentVersionId payload) w \<noteq> None"
  shows "updateVersion (vp_documentVersionId payload) (\<lambda>v. v\<lparr>dv_length := Some d\<rparr>) w =
           Inr (w\<lparr>versions := map (\<lambda>v. if dv_id v = vp_documentVersionId payload
                                        then v\<lparr>dv_length := Some d\<rparr> else v) (versions w)\<rparr>)"
  using assms by (auto simp add: updateVersion_def)

text \<open>
  C3 (as amended).  A video optimization that reaches the size guard re-encodes exactly
  when the byte size is at most 500 MiB: at exactly 500 * 1024 * 1024 bytes and at one
  byte under it re-encodes, and at one byte over it skips.
\<close>

theorem size_guard_strict:
  assumes reach: "reachesGuard env payload w m"
  shows "(vr_encoded (optimizeVideo env payload w) \<longleftrightarrow> vp_fileSize payload \<le> 500 * 1024 * 1024) \<and>
         (vp_fileSize payload = 500 * 1024 * 1024 \<longrightarrow> vr_encoded (optimizeVideo env payload w)) \<and>
         (vp_fileSize payload = 500 * 1024 * 1024 - 1 \<longrightarrow> vr_encoded (optimizeVideo env payload w)) \<and>
         (vp_fileSize payload = 500 * 1024 * 1024 + 1 \<longrightarrow> \<not> vr_encoded (optimizeVideo env payload w))"
proof -
  from reach have v: "findVersion (vp_documentVersionId payload) w \<noteq> None"
    by (simp add: reachesGuard_def)
  have "vr_encoded (optimizeVideo env payload w) \<longleftrightarrow> vp_fileSize payload \<le> 500 * 1024 * 1024"
    by (auto simp add: optimizeVideo_at_guard[OF reach] persistDurationAndGuard_def
          persistDuration_world[OF v] encodeAndReplace_encoded split: sum.splits)
  then show ?thesis by simp
qed

theorem size_guard_strict_witness:
  "\<not> vr_encoded (optimizeVideo ex_video_env (ex_video_payload (500 * 1024 * 1024 + 1)) ex_world) \<and>
   vr_encoded (optimizeVideo ex_video_env (ex_video_payload (500 * 1024 * 1024)) ex_world) \<and>
   vr_encoded (optimizeVideo ex_video_env (ex_video_payload (500 * 1024 * 1024 - 1)) ex_world)"
proof -
  have r: "reachesGuard ex_video_env (ex_video_payload n) ex_world
             \<lparr>vm_width = 1280, vm_height = 720, vm_fps = 30, vm_duration = 12\<rparr>" for n
    by (simp add: reachesGuard_def getFile_def probeMetadata_def findVersion_def Math_round_def ex_defs)
  from size_guard_strict[OF r, of "500 * 1024 * 1024 + 1"] size_guard_strict[OF r, of "500 * 1024 * 1024"]
       size_guard_strict[OF r, of "500 * 1024 * 1024 - 1"]
  show ?thesis by (simp add: ex_defs)
qed

theorem size_guard_boundary_counterexample:
  "vp_fileSize (ex_video_payload (500 * 1024 * 1024)) = 500 * 1024 * 1024 \<and>
   vr_encoded (optimizeVideo ex_video_env (ex_video_payload (500 * 1024 * 1024)) ex_world) \<and>
   vr_result (optimizeVideo ex_video_env (ex_video_payload (500 * 1024 * 1024)) ex_world) =
     Inr \<lparr>ss_success = True, ss_message = ''Successfully optimized video''\<rparr> \<and>
   map dv_file (versions (vr_world (optimizeVideo ex_video_env (ex_video_payload (500 * 1024 * 1024)) ex_world))) =
     [''t/doc_1/optimized.mp4'', ''t/doc_1/deck2.pdf'']"
  by (simp add: optimizeVideo_def persistDurationAndGuard_def encodeAndReplace_def getFile_def
        probeMetadata_def updateVersion_def findVersion_def falsy_def Math_round_def Let_def ex_defs)





section \<open>The claim about progress reports\<close>

lemma submit_reported:
  "submitConversion fetch = (r, rep, s) \<Longrightarrow>
     (case r of Inr _ \<Rightarrow> rep = [] | Inl _ \<Rightarrow> rep = [] \<or> rep = [(0, ''Conversion failed'')])"
  by (auto simp add: submitConversion_def split: prod.splits option.splits sum.splits if_splits)

lemma saveAndRasterize_progress:
  "\<exists>tail. cr_progress (saveAndRasterize env payload nm orig buf sv pp msg prog retry w) = prog @ [sv] @ tail \<and>
     ((\<exists>r. cr_result (saveAndRasterize env payload nm orig buf sv pp msg prog retry w) = Inr (Some r)) \<and>
        tail = [(pp, ''Generating page previews...''), (100, ''Conversion complete'')] \<or>
      (\<forall>r. cr_result (saveAndRasterize env payload nm orig buf sv pp msg prog retry w) \<noteq> Inr (Some r)) \<and>
        (tail = [] \<or> tail = [(0, ''Failed to save converted file'')]))"
  by (auto simp add: saveAndRasterize_def Let_def split: prod.splits sum.splits)

lemma convertViaService_progress:
  "\<exists>tail. cr_progress (convertViaService env payload al sv pp msg w) = (0, ''Initializing...'') # tail \<and>
     ((\<exists>r. cr_result (convertViaService env payload al sv pp msg w) = Inr (Some r)) \<and>
          tail = [(10, ''Retrieving file...''), (20, ''Converting document...'')] @ al @
                 [sv, (pp, ''Generating page previews...''), (100, ''Conversion complete'')] \<or>
      (\<forall>r. cr_result (convertViaService env payload al sv pp msg w) \<noteq> Inr (Some r)) \<and>
         ((\<exists>m. tail = [(0, m)]) \<or> tail = [(10, ''Retrieving file...'')] \<or>
          tail = [(10, ''Retrieving file...''), (20, ''Converting document...'')] \<or>
          (\<exists>m. tail = [(10, ''Retrieving file...''), (20, ''Converting document...''), (0, m)]) \<or>
          tail = [(10, ''Retrieving file...''), (20, ''Converting document...'')] @ al @ [sv] \<or>
          (\<exists>m. tail = [(10, ''Retrieving file...''), (20, ''Converting document...'')] @ al @ [sv, (0, m)])))"
proof (cases "p_teamId payload \<in> set (teams w)")
  case False
  then show ?thesis by (simp add: convertViaService_def)
next
  case team: True
  show ?thesis
  proof (cases "findDocumentVersion (p_documentId payload) (p_documentVersionId payload) w")
    case None
    with team show ?thesis by (simp add: convertViaService_def)
  next
    case (Some nv)
    obtain name version where nv: "nv = (name, version)" by (cases nv) auto
    let ?orig = "case dv_originalFile version of Some f \<Rightarrow> f | None \<Rightarrow> []"
    show ?thesis
    proof (cases "getFile (ce_presign env) (dv_storageType version) ?orig")
      case (Inl e)
      with team Some nv show ?thesis by (simp add: convertViaService_def)
    next
      case url: (Inr fileUrl)
      obtain r rep s where sub: "submitConversion (ce_fetch env) = (r, rep, s)"
        by (cases "submitConversion (ce_fetch env)") auto
      show ?thesis
      proof (cases r)
        case (Inl e)
        with submit_reported[OF sub] team Some nv url sub show ?thesis
          by (auto simp add: convertViaService_def)
      next
        case (Inr resp)
        with submit_reported[OF sub] have rep: "rep = []" by simp
        let ?prog = "[(0, ''Initializing...''), (10, ''Retrieving file...''), (20, ''Converting document...'')] @ al"
        have run: "convertViaService env payload al sv pp msg w =
                saveAndRasterize env payload (name @ ''.pdf'') ?orig (body_bytes resp) sv pp msg ?prog (Some s) w"
          using team Some nv url sub Inr rep by (simp add: convertViaService_def)
        from saveAndRasterize_progress[of env payload "name @ ''.pdf''" ?orig "body_bytes resp" sv pp msg ?prog "Some s" w]
        obtain tail where
          t: "cr_progress (convertViaService env payload al sv pp msg w) = ?prog @ [sv] @ tail" and
          c: "(\<exists>r. cr_result (convertViaService env payload al sv pp msg w) = Inr (Some r)) \<and>
                tail = [(pp, ''Generating page previews...''), (100, ''Conversion complete'')] \<or>
              (\<forall>r. cr_result (convertViaService env payload al sv pp msg w) \<noteq> Inr (Some r)) \<and>
                (tail = [] \<or> tail = [(0, ''Failed to save converted file'')])"
          unfolding run by blast
        from c show ?thesis
        proof
          assume "(\<exists>r. cr_result (convertViaService env payload al sv pp msg w) = Inr (Some r)) \<and>
                tail = [(pp, ''Generating page previews...''), (100, ''Conversion complete'')]"
          then show ?thesis using t by simp
        next
          assume a: "(\<forall>r. cr_result (convertViaService env payload al sv pp msg w) \<noteq> Inr (Some r)) \<and>
                (tail = [] \<or> tail = [(0, ''Failed to save converted file'')])"
          then have "tail = [] \<or> tail = [(0, ''Failed to save converted file'')]" by simp
          then show ?thesis
          proof
            assume "tail = []"
            with a t show ?thesis by simp
          next
            assume "tail = [(0, ''Failed to save converted file'')]"
            with a t show ?thesis by simp
          qed
        qed
      qed
    qed
  qed
qed

lemma monotone_shapes:
  "monotoneUntilFailure [(0, a), (0, m)]"
  "monotoneUntilFailure [(0, a), (10, b)]"
  "monotoneUntilFailure [(0, a), (10, b), (20, c)]"
  "monotoneUntilFailure [(0, a), (10, b), (20, c), (0, m)]"
  by (simp_all add: monotoneUntilFailure_def)

lemma convertViaService_monotone:
  assumes ord: "sorted (20 # map fst al @ [fst sv, pp, 100])"
  shows "monotoneUntilFailure (cr_progress (convertViaService env payload al sv pp msg w)) \<and>
         ((\<exists>r. cr_result (convertViaService env payload al sv pp msg w) = Inr (Some r)) \<longrightarrow>
            map fst (cr_progress (convertViaService env payload al sv pp msg w)) =
              [0, 10, 20] @ map fst al @ [fst sv, pp, 100])"
proof -
  let ?run = "convertViaService env payload al sv pp msg w"
  have s1: "sorted (0 # 10 # 20 # map fst al @ [fst sv, pp, 100])"
    using ord by (auto simp add: sorted_append)
  have s2: "sorted (0 # 10 # 20 # map fst al @ [fst sv])"
    using ord by (auto simp add: sorted_append)
  from convertViaService_progress[of env payload al sv pp msg w]
  obtain tail where t: "cr_progress ?run = (0, ''Initializing...'') # tail"
    and c: "(\<exists>r. cr_result ?run = Inr (Some r)) \<and>
          tail = [(10, ''Retrieving file...''), (20, ''Converting document...'')] @ al @
                 [sv, (pp, ''Generating page previews...''), (100, ''Conversion complete'')] \<or>
      (\<forall>r. cr_result ?run \<noteq> Inr (Some r)) \<and>
         ((\<exists>m. tail = [(0, m)]) \<or> tail = [(10, ''Retrieving file...'')] \<or>
          tail = [(10, ''Retrieving file...''), (20, ''Converting document...'')] \<or>
          (\<exists>m. tail = [(10, ''Retrieving file...''), (20, ''Converting document...''), (0, m)]) \<or>
          tail = [(10, ''Retrieving file...''), (20, ''Converting document...'')] @ al @ [sv] \<or>
          (\<exists>m. tail = [(10, ''Retrieving file...''), (20, ''Converting document...'')] @ al @ [sv, (0, m)]))"
    by blast
  from c show ?thesis
  proof
    assume "(\<exists>r. cr_result ?run = Inr (Some r)) \<and>
          tail = [(10, ''Retrieving file...''), (20, ''Converting document...'')] @ al @
                 [sv, (pp, ''Generating page previews...''), (100, ''Conversion complete'')]"
    then show ?thesis using s1 by (simp add: t monotoneUntilFailure_def)
  next
    assume a: "(\<forall>r. cr_result ?run \<noteq> Inr (Some r)) \<and>
         ((\<exists>m. tail = [(0, m)]) \<or> tail = [(10, ''Retrieving file...'')] \<or>
          tail = [(10, ''Retrieving file...''), (20, ''Converting document...'')] \<or>
          (\<exists>m. tail = [(10, ''Retrieving file...''), (20, ''Converting document...''), (0, m)]) \<or>
          tail = [(10, ''Retrieving file...''), (20, ''Converting document...'')] @ al @ [sv] \<or>
          (\<exists>m. tail = [(10, ''Retrieving file...''), (20, ''Converting document...'')] @ al @ [sv, (0, m)]))"
    then have nos: "\<forall>r. cr_result ?run \<noteq> Inr (Some r)" by simp
    have b: "butlast (al @ [sv, (0, m)]) = al @ [sv]" for m
      by (simp add: butlast_append)
    from a have "monotoneUntilFailure ((0, ''Initializing...'') # tail)"
      using s2 by (elim conjE disjE exE) (simp_all add: monotoneUntilFailure_def b)
    with nos t show ?thesis by simp
  qed
qed

lemma convertCadToPdf_monotone:
  "monotoneUntilFailure (cr_progress (convertCadToPdf env payload w)) \<and>
   ((\<exists>r. cr_result (convertCadToPdf env payload w) = Inr (Some r)) \<longrightarrow>
      map fst (cr_progress (convertCadToPdf env payload w)) = [0, 10, 20, 40, 60, 80, 100])"
  using convertViaService_monotone[of "[(40, ''Processing converted document...'')]"
          "(60, ''Saving document...'')" 80 env payload "''Successfully converted CAD file to PDF''" w]
  by (simp add: convertCadToPdf_def)

lemma convertOfficeToPdf_monotone:
  "monotoneUntilFailure (cr_progress (convertOfficeToPdf env payload w)) \<and>
   ((\<exists>r. cr_result (convertOfficeToPdf env payload w) = Inr (Some r)) \<longrightarrow>
      map fst (cr_progress (convertOfficeToPdf env payload w)) = [0, 10, 20, 30, 40, 100])"
  using convertViaService_monotone[of "[]"
          "(30, ''Saving converted file...'')" 40 env payload "''Successfully converted Office document to PDF''" w]
  by (simp add: convertOfficeToPdf_def)

lemma libreConvertAndSave_progress:
  "(\<exists>r. cr_result (libreConvertAndSave env payload name orig prog w) = Inr (Some r)) \<and>
     map fst (cr_progress (libreConvertAndSave env payload name orig prog w)) = map fst prog @ [70, 80, 100] \<or>
   (\<forall>r. cr_result (libreConvertAndSave env payload name orig prog w) \<noteq> Inr (Some r)) \<and>
     (map fst (cr_progress (libreConvertAndSave env payload name orig prog w)) = map fst prog @ [0] \<or>
      map fst (cr_progress (libreConvertAndSave env payload name orig prog w)) = map fst prog @ [70, 0])"
  by (auto simp add: libreConvertAndSave_def Let_def split: prod.splits sum.splits)

lemma convertOfficeToPdfLocal_progress:
  "(\<exists>r. cr_result (convertOfficeToPdfLocal env payload w) = Inr (Some r)) \<and>
     map fst (cr_progress (convertOfficeToPdfLocal env payload w)) = [0, 10, 20, 30, 70, 80, 100] \<or>
   (\<forall>r. cr_result (convertOfficeToPdfLocal env payload w) \<noteq> Inr (Some r)) \<and>
     map fst (cr_progress (convertOfficeToPdfLocal env payload w)) \<in>
       {[0, 0], [0, 10], [0, 10, 20], [0, 10, 20, 30, 0], [0, 10, 20, 30, 70, 0]}"
  using libreConvertAndSave_progress[of env payload _ _
          "[(0, ''Initializing...''), (10, ''Retrieving file...''), (20, ''Downloading file...''), (30, ''Converting document...'')]" w]
  by (auto simp add: convertOfficeToPdfLocal_def Let_def
        split: option.splits prod.splits sum.splits fetch_outcome.splits)

lemma Math_round_mono: "x \<le> y \<Longrightarrow> Math_round x \<le> Math_round y"
  by (simp add: Math_round_def floor_mono)

lemma sorted_map_mono:
  "sorted xs \<Longrightarrow> (\<And>x y. x \<le> y \<Longrightarrow> f x \<le> f y) \<Longrightarrow> sorted (map f xs)"
  by (induction xs) auto

lemma encoderProgress_as_map:
  "map fst (encoderProgress events) =
     map (\<lambda>p. Math_round (40 + p * (4 / 10)))
       (filter (\<lambda>p. p \<noteq> 0) (concat (map (\<lambda>e. case e of None \<Rightarrow> [] | Some p \<Rightarrow> [p]) events)))"
  by (induction events) (auto simp add: encoderProgress_def split: option.splits)

lemma encoderProgress_sorted:
  assumes "encoderWellBehaved events"
  shows "sorted (map fst (encoderProgress events))"
proof -
  from assms have "sorted (concat (map (\<lambda>e. case e of None \<Rightarrow> [] | Some p \<Rightarrow> [p]) events))"
    by (simp add: encoderWellBehaved_def)
  then have "sorted (filter (\<lambda>p. p \<noteq> 0) (concat (map (\<lambda>e. case e of None \<Rightarrow> [] | Some p \<Rightarrow> [p]) events)))"
    by (rule sorted_wrt_filter)
  then show ?thesis
    unfolding encoderProgress_as_map
    by (rule sorted_map_mono) (simp add: Math_round_mono)
qed

lemma encoder_percent_range:
  fixes p :: real
  assumes "0 \<le> p" and "p \<le> 100"
  shows "40 \<le> Math_round (40 + p * (4 / 10)) \<and> Math_round (40 + p * (4 / 10)) \<le> 80"
proof -
  have "(of_int 40 :: real) \<le> 40 + p * (4 / 10) + 1 / 2" using assms by simp
  then have lo: "40 \<le> \<lfloor>40 + p * (4 / 10) + 1 / 2\<rfloor>" by (rule iffD2[OF le_floor_iff])
  have "40 + p * (4 / 10) + 1 / 2 < (of_int 81 :: real)" using assms by simp
  then have "\<lfloor>40 + p * (4 / 10) + 1 / 2\<rfloor> < 81" by (rule iffD2[OF floor_less_iff])
  with lo show ?thesis unfolding Math_round_def by linarith
qed

lemma percents_range:
  "list_all (\<lambda>e. case e of None \<Rightarrow> True | Some p \<Rightarrow> 0 \<le> p \<and> p \<le> (100::real)) events \<Longrightarrow>
     \<forall>p\<in>set (concat (map (\<lambda>e. case e of None \<Rightarrow> [] | Some p \<Rightarrow> [p]) events)). 0 \<le> p \<and> p \<le> 100"
proof (induction events)
  case Nil
  then show ?case by simp
next
  case (Cons e events)
  then show ?case by (cases e) simp_all
qed

lemma encoderProgress_range:
  assumes "encoderWellBehaved events"
  shows "\<forall>x\<in>set (map fst (encoderProgress events)). 40 \<le> x \<and> x \<le> 80"
proof -
  from assms have "list_all (\<lambda>e. case e of None \<Rightarrow> True | Some p \<Rightarrow> 0 \<le> p \<and> p \<le> 100) events"
    by (simp add: encoderWellBehaved_def)
  then have pr: "\<forall>p\<in>set (concat (map (\<lambda>e. case e of None \<Rightarrow> [] | Some p \<Rightarrow> [p]) events)). 0 \<le> p \<and> p \<le> 100"
    by (rule percents_range)
  show ?thesis
  proof
    fix x assume "x \<in> set (map fst (encoderProgress events))"
    then obtain p where "p \<in> set (concat (map (\<lambda>e. case e of None \<Rightarrow> [] | Some p \<Rightarrow> [p]) events))"
        and x: "x = Math_round (40 + p * (4 / 10))"
      unfolding encoderProgress_as_map by auto
    with pr have "0 \<le> p" "p \<le> 100" by auto
    from encoder_percent_range[OF this] x show "40 \<le> x \<and> x \<le> 80" by simp
  qed
qed

lemma video_sorted_tail:
  assumes "sorted enc" and "\<forall>x\<in>set enc. 40 \<le> x \<and> x \<le> (80::int)"
      and "tail \<in> {[], [80], [80, 90], [80, 90, 100]}"
  shows "sorted ([0, 10, 20, 30, 40] @ enc @ tail)"
  using assms by (fastforce simp add: sorted_append)

lemma encodeAndReplace_progress:
  "\<exists>tail. map fst (vr_progress (encodeAndReplace env payload m prog w)) =
            map fst prog @ [40] @ map fst (encoderProgress (ve_ffmpeg_progress env)) @ tail \<and>
          tail \<in> {[], [80], [80, 90], [80, 90, 100]}"
  by (auto simp add: encodeAndReplace_def Let_def split: sum.splits)

lemma optimizeVideo_progress:
  "map fst (vr_progress (optimizeVideo env payload w)) \<in>
     {[0], [0, 10], [0, 10, 20], [0, 10, 20, 30], [0, 10, 20, 30, 100]} \<or>
   (\<exists>tail. map fst (vr_progress (optimizeVideo env payload w)) =
            [0, 10, 20, 30, 40] @ map fst (encoderProgress (ve_ffmpeg_progress env)) @ tail \<and>
          tail \<in> {[], [80], [80, 90], [80, 90, 100]})"
  using encodeAndReplace_progress[of env payload _
          "[(0, ''Initializing...''), (10, ''Fetching video file...''), (20, ''Downloading video...''),
            (30, ''Analyzing video...'')]"]
  by (auto simp add: optimizeVideo_def persistDurationAndGuard_def Let_def split: sum.splits)

lemma optimizeVideo_monotone:
  assumes "encoderWellBehaved (ve_ffmpeg_progress env)"
  shows "sorted (map fst (vr_progress (optimizeVideo env payload w)))"
  using optimizeVideo_progress[of env payload w]
proof
  assume "map fst (vr_progress (optimizeVideo env payload w)) \<in>
     {[0], [0, 10], [0, 10, 20], [0, 10, 20, 30], [0, 10, 20, 30, 100]}"
  then show ?thesis by auto
next
  assume "\<exists>tail. map fst (vr_progress (optimizeVideo env payload w)) =
            [0, 10, 20, 30, 40] @ map fst (encoderProgress (ve_ffmpeg_progress env)) @ tail \<and>
          tail \<in> {[], [80], [80, 90], [80, 90, 100]}"
  then obtain tail where t: "map fst (vr_progress (optimizeVideo env payload w)) =
            [0, 10, 20, 30, 40] @ map fst (encoderProgress (ve_ffmpeg_progress env)) @ tail"
      and tl: "tail \<in> {[], [80], [80, 90], [80, 90, 100]}" by blast
  show ?thesis
    unfolding t
    by (rule video_sorted_tail[OF encoderProgress_sorted[OF assms] encoderProgress_range[OF assms] tl])
qed

text \<open>
  C9 (as amended).  Within one office conversion (with the conversion service or with
  the local renderer) or one CAD conversion, the percentages the stage reports never
  decrease, except that a failure path may end with one report of 0; on a run that
  returns success they are 0, 10, 20, 40, 60, 80, 100 (CAD), 0, 10, 20, 30, 40, 100
  (office, conversion service) and 0, 10, 20, 30, 70, 80, 100 (office, local renderer).
  Within one video optimization they never decrease on any path, provided the
  percentages of the encoder's own progress events never decrease and lie between 0 and
  100.  A rasterization run is not monotone: after the last page it has reported 100 and
  then reports 90.
\<close>

theorem progress_monotone_until_failure:
  assumes "encoderWellBehaved (ve_ffmpeg_progress venv)"
  shows "monotoneUntilFailure (cr_progress (convertCadToPdf cenv payload w)) \<and>
         monotoneUntilFailure (cr_progress (convertOfficeToPdf cenv payload w)) \<and>
         monotoneUntilFailure (cr_progress (convertOfficeToPdfLocal lenv payload w)) \<and>
         ((\<exists>r. cr_result (convertCadToPdf cenv payload w) = Inr (Some r)) \<longrightarrow>
            map fst (cr_progress (convertCadToPdf cenv payload w)) = [0, 10, 20, 40, 60, 80, 100]) \<and>
         ((\<exists>r. cr_result (convertOfficeToPdf cenv payload w) = Inr (Some r)) \<longrightarrow>
            map fst (cr_progress (convertOfficeToPdf cenv payload w)) = [0, 10, 20, 30, 40, 100]) \<and>
         ((\<exists>r. cr_result (convertOfficeToPdfLocal lenv payload w) = Inr (Some r)) \<longrightarrow>
            map fst (cr_progress (convertOfficeToPdfLocal lenv payload w)) = [0, 10, 20, 30, 70, 80, 100]) \<and>
         sorted (map fst (vr_progress (optimizeVideo venv vpayload w)))"
proof -
  have local: "monotoneUntilFailure (cr_progress (convertOfficeToPdfLocal lenv payload w)) \<and>
         ((\<exists>r. cr_result (convertOfficeToPdfLocal lenv payload w) = Inr (Some r)) \<longrightarrow>
            map fst (cr_progress (convertOfficeToPdfLocal lenv payload w)) = [0, 10, 20, 30, 70, 80, 100])"
    using convertOfficeToPdfLocal_progress[of lenv payload w]
  proof
    assume "(\<exists>r. cr_result (convertOfficeToPdfLocal lenv payload w) = Inr (Some r)) \<and>
       map fst (cr_progress (convertOfficeToPdfLocal lenv payload w)) = [0, 10, 20, 30, 70, 80, 100]"
    then show ?thesis by (simp add: monotoneUntilFailure_def)
  next
    assume a: "(\<forall>r. cr_result (convertOfficeToPdfLocal lenv payload w) \<noteq> Inr (Some r)) \<and>
       map fst (cr_progress (convertOfficeToPdfLocal lenv payload w)) \<in>
         {[0, 0], [0, 10], [0, 10, 20], [0, 10, 20, 30, 0], [0, 10, 20, 30, 70, 0]}"
    then have m: "map fst (cr_progress (convertOfficeToPdfLocal lenv payload w)) \<in>
         {[0, 0], [0, 10], [0, 10, 20], [0, 10, 20, 30, 0], [0, 10, 20, 30, 70, 0]}" by simp
    have ne: "cr_progress (convertOfficeToPdfLocal lenv payload w) \<noteq> []" using m by auto
    have "sorted (map fst (cr_progress (convertOfficeToPdfLocal lenv payload w))) \<or>
          last (map fst (cr_progress (convertOfficeToPdfLocal lenv payload w))) = 0 \<and>
          sorted (butlast (map fst (cr_progress (convertOfficeToPdfLocal lenv payload w))))"
      using m by auto
    then have "monotoneUntilFailure (cr_progress (convertOfficeToPdfLocal lenv payload w))"
      using ne by (auto simp add: monotoneUntilFailure_def last_map map_butlast)
    with a show ?thesis by simp
  qed
  from convertCadToPdf_monotone[of cenv payload w] convertOfficeToPdf_monotone[of cenv payload w] local
       optimizeVideo_monotone[OF assms, of vpayload w]
  show ?thesis by (elim conjE, intro conjI) assumption+
qed

theorem progress_monotone_until_failure_witness:
  "encoderWellBehaved (ve_ffmpeg_progress ex_video_env) \<and>
   sorted (map fst (vr_progress (optimizeVideo ex_video_env (ex_video_payload 1000) ex_world))) \<and>
   monotoneUntilFailure (cr_progress (convertCadToPdf (ex_convert_env ex_bad_request) ex_payload ex_world)) \<and>
   monotoneUntilFailure (cr_progress (convertOfficeToPdf (ex_convert_env ex_bad_request) ex_payload ex_world)) \<and>
   monotoneUntilFailure (cr_progress (convertOfficeToPdfLocal ex_libre_env ex_payload ex_world))"
proof -
  have e: "encoderWellBehaved (ve_ffmpeg_progress ex_video_env)"
    by (simp add: encoderWellBehaved_def ex_defs)
  from progress_monotone_until_failure[OF e, of "ex_convert_env ex_bad_request" ex_payload ex_world
         ex_libre_env "ex_video_payload 1000"] e
  show ?thesis by simp
qed

theorem progress_not_monotone_counterexample:
  "map fst (rr_progress (convertPdfToImage ex_env ex_payload ex_world)) = [0, 10, 20, 100, 90, 95, 100] \<and>
   \<not> sorted (map fst (rr_progress (convertPdfToImage ex_env ex_payload ex_world))) \<and>
   map fst (cr_progress (convertCadToPdf (ex_convert_env ex_bad_request) ex_payload ex_world)) = [0, 10, 20, 0] \<and>
   \<not> sorted (map fst (cr_progress (convertCadToPdf (ex_convert_env ex_bad_request) ex_payload ex_world)))"
proof -
  have a: "map fst (rr_progress (convertPdfToImage ex_env ex_payload ex_world)) = [0, 10, 20, 100, 90, 95, 100]"
    by (simp add: raster_defs ex_defs pageLoop.simps)
  have b: "map fst (cr_progress (convertCadToPdf (ex_convert_env ex_bad_request) ex_payload ex_world)) = [0, 10, 20, 0]"
    by (simp add: convertCadToPdf_def convertViaService_def findDocumentVersion_def falsy_def getFile_def
          submitConversion_def initialRetryState_def retryLoop.simps maxRetries_def response_ok_def
          Let_def ex_defs)
  show ?thesis unfolding a b by simp
qed

end
